theory Spec2Isabelle
  imports Main "HOL-Library.AList" "HOL-Library.Option_ord" "HOL-Library.Multiset"
begin

section \<open>Values, documents, requests and responses\<close>

text \<open>
  The program is one Express application, \<open>server.js\<close>, over Mongoose models. A stored
  field value or a value of a parsed JSON body is a \<open>val\<close>; an object (a request body, a
  stored document, a token payload, a JSON response) is an association list from keys to
  values, read with \<open>map_of\<close>, so that a key that is not there reads as JavaScript's
  \<open>undefined\<close> (\<open>None\<close>). A number is an integer: a JavaScript number holds the integers
  below \<open>2^53\<close> in magnitude exactly and prints them digit by digit, and it is for bodies
  whose numbers are of that kind that the casts below are those of the code. Nested
  objects as field values are left out: no schema path of the program stores one.
  \<open>VDate\<close> and \<open>VId\<close> are the store's dates (a clock reading) and ObjectIds; a JSON
  body carries neither.
\<close>

datatype val = VNull | VBool bool | VNum int | VStr string | VArr "val list" | VDate nat | VId nat

type_synonym doc = "(string \<times> val) list"

text \<open>JavaScript truthiness of a property read (\<open>if (name)\<close>, \<open>!name\<close>).\<close>

fun truthy :: "val option \<Rightarrow> bool" where
  "truthy None = False"
| "truthy (Some VNull) = False"
| "truthy (Some (VBool b)) = b"
| "truthy (Some (VNum n)) = (n \<noteq> 0)"
| "truthy (Some (VStr s)) = (s \<noteq> [])"
| "truthy (Some (VArr xs)) = True"
| "truthy (Some (VDate t)) = True"
| "truthy (Some (VId i)) = True"

text \<open>\<open>s.split(' ')\<close>: the pieces between single spaces, empty pieces included.\<close>

fun js_split :: "string \<Rightarrow> string list" where
  "js_split [] = [[]]"
| "js_split (c # cs) =
     (if c = CHR '' '' then [] # js_split cs
      else (case js_split cs of [] \<Rightarrow> [[c]] | p # ps \<Rightarrow> (c # p) # ps))"

text \<open>\<open>xs[i]\<close> of JavaScript: \<open>undefined\<close> out of range.\<close>

fun js_index :: "'a list \<Rightarrow> nat \<Rightarrow> 'a option" where
  "js_index [] i = None"
| "js_index (x # xs) 0 = Some x"
| "js_index (x # xs) (Suc i) = js_index xs i"

datatype payload = Obj doc | Arr "doc list" | Null

datatype response = Response (status: nat) (payload: payload)

text \<open>\<open>res.status(st).json({ message: m })\<close>.\<close>

definition message :: "nat \<Rightarrow> string \<Rightarrow> response" where
  "message st m = Response st (Obj [(''message'', VStr m)])"

datatype http_method = GET | POST | PUT | DELETE

record request =
  authorization :: "string option"
  body :: doc
  user :: "doc option"

text \<open>
  What the program takes from its libraries and its environment: the configured signing
  secret (\<open>process.env.JWT_SECRET\<close>), jsonwebtoken's \<open>sign\<close> (payload, key, lifetime in
  seconds, clock) and \<open>verify\<close> (token, key, clock; \<open>None\<close> when it throws), and bcryptjs's
  \<open>hash\<close> (password, salt) and \<open>compare\<close> (password, hash).
\<close>

record env =
  JWT_SECRET :: "string option"
  jwt_sign :: "doc \<Rightarrow> string \<Rightarrow> nat \<Rightarrow> nat \<Rightarrow> string"
  jwt_verify :: "string \<Rightarrow> string \<Rightarrow> nat \<Rightarrow> doc option"
  bcrypt_hash :: "string \<Rightarrow> string \<Rightarrow> string"
  bcrypt_compare :: "string \<Rightarrow> string \<Rightarrow> bool"

text \<open>\<open>process.env.JWT_SECRET || 'a_very_secure_default_secret'\<close>.\<close>

definition secret :: "env \<Rightarrow> string" where
  "secret e = (case JWT_SECRET e of None \<Rightarrow> ''a_very_secure_default_secret''
     | Some s \<Rightarrow> if s = [] then ''a_very_secure_default_secret'' else s)"

section \<open>The authorization gate\<close>

text \<open>
  A middleware either answers the request itself or calls \<open>next()\<close> with the request as it
  has left it.
\<close>

datatype outcome = Respond response | Next request

text \<open>\<open>authHeader && authHeader.split(' ')[1]\<close>.\<close>

definition header_token :: "string option \<Rightarrow> string option" where
  "header_token authHeader =
     (case authHeader of None \<Rightarrow> None
      | Some h \<Rightarrow> if h = [] then Some [] else js_index (js_split h) 1)"

definition authMiddleware :: "env \<Rightarrow> nat \<Rightarrow> string \<Rightarrow> request \<Rightarrow> outcome" where
  "authMiddleware e now requiredRole req =
     (case header_token (authorization req) of
        None \<Rightarrow> Respond (message 401 ''Access denied. No token provided.'')
      | Some token \<Rightarrow>
          if token = [] then Respond (message 401 ''Access denied. No token provided.'')
          else (case jwt_verify e token (secret e) now of
                  None \<Rightarrow> Respond (message 400 ''Invalid token.'')
                | Some decoded \<Rightarrow>
                    if requiredRole = ''Administrator''
                       \<and> map_of decoded ''role'' \<noteq> Some (VStr ''Administrator'')
                    then Respond (message 403 ''Forbidden: Administrator access required.'')
                    else Next (req\<lparr>user := Some decoded\<rparr>)))"

text \<open>The token the gate sees: none when the extracted value is falsy (\<open>!token\<close>).\<close>

definition presented :: "request \<Rightarrow> string option" where
  "presented req =
     (case header_token (authorization req) of None \<Rightarrow> None
      | Some t \<Rightarrow> if t = [] then None else Some t)"

section \<open>Schemas\<close>

text \<open>
  A Mongoose schema as the program declares it: for each path its type and the options the
  program uses. \<open>String\<close>, \<open>Boolean\<close> and \<open>[String]\<close> are the only types declared.
\<close>

datatype ftype = TString | TBoolean | TStrings

record field =
  ftype :: ftype
  required :: bool
  dflt :: "val option"
  unique :: bool
  trim :: bool
  lowercase :: bool
  enumValues :: "string list option"

definition plain :: "ftype \<Rightarrow> field" where
  "plain t = \<lparr>ftype = t, required = False, dflt = None, unique = False, trim = False,
     lowercase = False, enumValues = None\<rparr>"

text \<open>\<open>[String]\<close>: Mongoose gives an array path the default \<open>[]\<close>.\<close>

definition strings :: field where
  "strings = (plain TStrings)\<lparr>dflt := Some (VArr [])\<rparr>"

record schema =
  paths :: "(string \<times> field) list"
  timestamps :: bool

definition userSchema :: schema where
  "userSchema = \<lparr>paths =
     [(''name'', (plain TString)\<lparr>required := True, trim := True\<rparr>),
      (''email'', (plain TString)\<lparr>required := True, unique := True, trim := True,
                   lowercase := True\<rparr>),
      (''passwordHash'', (plain TString)\<lparr>required := True\<rparr>),
      (''role'', (plain TString)\<lparr>enumValues := Some [''Administrator'', ''Editor''],
                   dflt := Some (VStr ''Editor''), required := True\<rparr>),
      (''status'', (plain TString)\<lparr>enumValues := Some [''Active'', ''Inactive''],
                   dflt := Some (VStr ''Active''), required := True\<rparr>)],
     timestamps = False\<rparr>"

definition projectSchema :: schema where
  "projectSchema = \<lparr>paths =
     [(''title'', (plain TString)\<lparr>required := True, trim := True\<rparr>),
      (''description'', (plain TString)\<lparr>required := True\<rparr>),
      (''image'', plain TString),
      (''tech'', strings),
      (''published'', (plain TBoolean)\<lparr>dflt := Some (VBool False)\<rparr>),
      (''problem'', plain TString),
      (''process'', plain TString),
      (''outcome'', plain TString),
      (''architectureDiagram'', plain TString)],
     timestamps = True\<rparr>"

definition experienceSchema :: schema where
  "experienceSchema = \<lparr>paths =
     [(''role'', (plain TString)\<lparr>required := True\<rparr>),
      (''company'', (plain TString)\<lparr>required := True\<rparr>),
      (''duration'', (plain TString)\<lparr>required := True\<rparr>),
      (''description'', (plain TString)\<lparr>required := True\<rparr>),
      (''published'', (plain TBoolean)\<lparr>dflt := Some (VBool False)\<rparr>)],
     timestamps = True\<rparr>"

definition expertiseSchema :: schema where
  "expertiseSchema = \<lparr>paths =
     [(''title'', (plain TString)\<lparr>required := True\<rparr>),
      (''description'', (plain TString)\<lparr>required := True\<rparr>),
      (''icon'', plain TString),
      (''published'', (plain TBoolean)\<lparr>dflt := Some (VBool False)\<rparr>)],
     timestamps = True\<rparr>"

definition engineeringLogSchema :: schema where
  "engineeringLogSchema = \<lparr>paths =
     [(''title'', (plain TString)\<lparr>required := True\<rparr>),
      (''excerpt'', (plain TString)\<lparr>required := True\<rparr>),
      (''content'', (plain TString)\<lparr>dflt := Some (VStr [])\<rparr>),
      (''published'', (plain TBoolean)\<lparr>dflt := Some (VBool False)\<rparr>)],
     timestamps = True\<rparr>"

definition personalInfoSchema :: schema where
  "personalInfoSchema = \<lparr>paths =
     [(''singleton'', (plain TString)\<lparr>dflt := Some (VStr ''main''), unique := True\<rparr>),
      (''name'', plain TString), (''title'', plain TString), (''subtitle'', plain TString),
      (''summary'', plain TString), (''linkedin'', plain TString), (''github'', plain TString),
      (''email'', plain TString), (''cvPath'', plain TString)],
     timestamps = False\<rparr>"

definition skillsSchema :: schema where
  "skillsSchema = \<lparr>paths =
     [(''singleton'', (plain TString)\<lparr>dflt := Some (VStr ''main''), unique := True\<rparr>),
      (''skills'', strings)],
     timestamps = False\<rparr>"

definition singleSectionSchema :: schema where
  "singleSectionSchema = \<lparr>paths =
     [(''sectionId'', (plain TString)\<lparr>required := True, unique := True\<rparr>),
      (''title'', plain TString),
      (''description'', plain TString)],
     timestamps = False\<rparr>"

text \<open>\<open>mongoose.model(name, schema)\<close>.\<close>

record model =
  modelName :: string
  schema :: schema

definition User :: model where "User = \<lparr>modelName = ''User'', schema = userSchema\<rparr>"
definition Project :: model where
  "Project = \<lparr>modelName = ''Project'', schema = projectSchema\<rparr>"
definition Experience :: model where
  "Experience = \<lparr>modelName = ''Experience'', schema = experienceSchema\<rparr>"
definition Expertise :: model where
  "Expertise = \<lparr>modelName = ''Expertise'', schema = expertiseSchema\<rparr>"
definition EngineeringLog :: model where
  "EngineeringLog = \<lparr>modelName = ''EngineeringLog'', schema = engineeringLogSchema\<rparr>"
definition PersonalInfo :: model where
  "PersonalInfo = \<lparr>modelName = ''PersonalInfo'', schema = personalInfoSchema\<rparr>"
definition Skills :: model where
  "Skills = \<lparr>modelName = ''Skills'', schema = skillsSchema\<rparr>"
definition SingleSection :: model where
  "SingleSection = \<lparr>modelName = ''SingleSection'', schema = singleSectionSchema\<rparr>"

section \<open>Casting\<close>

text \<open>
  What Mongoose does to a value on its way to a path: the schema type's cast, with the
  string setters \<open>trim\<close> and \<open>lowercase\<close>. \<open>None\<close> is a CastError. Strings are byte
  strings here, so \<open>trim\<close> and \<open>toLowerCase\<close> act on ASCII.
\<close>

definition is_space :: "char \<Rightarrow> bool" where
  "is_space c = (c = CHR '' '' \<or> (9 \<le> (of_char c :: nat) \<and> (of_char c :: nat) \<le> 13))"

definition js_trim :: "string \<Rightarrow> string" where
  "js_trim s = rev (dropWhile is_space (rev (dropWhile is_space s)))"

definition lower_char :: "char \<Rightarrow> char" where
  "lower_char c = (if 65 \<le> (of_char c :: nat) \<and> (of_char c :: nat) \<le> 90
     then char_of ((of_char c :: nat) + 32) else c)"

definition toLowerCase :: "string \<Rightarrow> string" where
  "toLowerCase s = map lower_char s"

definition setters :: "field \<Rightarrow> string \<Rightarrow> string" where
  "setters f s = (let s1 = (if trim f then js_trim s else s)
                  in if lowercase f then toLowerCase s1 else s1)"

fun digits :: "nat \<Rightarrow> string" where
  "digits n = (if n < 10 then [char_of (48 + n)]
               else digits (n div 10) @ [char_of (48 + n mod 10)])"

declare digits.simps [simp del]

definition show_int :: "int \<Rightarrow> string" where
  "show_int i = (if i < 0 then CHR ''-'' # digits (nat (- i)) else digits (nat i))"

fun castString :: "field \<Rightarrow> val \<Rightarrow> val option" where
  "castString f VNull = Some VNull"
| "castString f (VStr s) = Some (VStr (setters f s))"
| "castString f (VNum n) = Some (VStr (setters f (show_int n)))"
| "castString f (VBool b) = Some (VStr (setters f (if b then ''true'' else ''false'')))"
| "castString f (VArr xs) = None"
| "castString f (VDate t) = None"
| "castString f (VId i) = None"

text \<open>
  Mongoose's \<open>convertToTrue\<close> is \<open>true, 'true', 1, '1', 'yes'\<close> and its
  \<open>convertToFalse\<close> is \<open>false, 'false', 0, '0', 'no'\<close>.
\<close>

fun castBoolean :: "val \<Rightarrow> val option" where
  "castBoolean VNull = Some VNull"
| "castBoolean (VBool b) = Some (VBool b)"
| "castBoolean (VStr s) =
     (if s \<in> {''true'', ''1'', ''yes''} then Some (VBool True)
      else if s \<in> {''false'', ''0'', ''no''} then Some (VBool False) else None)"
| "castBoolean (VNum n) =
     (if n = 1 then Some (VBool True) else if n = 0 then Some (VBool False) else None)"
| "castBoolean (VArr xs) = None"
| "castBoolean (VDate t) = None"
| "castBoolean (VId i) = None"

text \<open>All of the list, or nothing when one element fails.\<close>

fun those_all :: "'a option list \<Rightarrow> 'a list option" where
  "those_all [] = Some []"
| "those_all (None # xs) = None"
| "those_all (Some x # xs) = (case those_all xs of None \<Rightarrow> None | Some ys \<Rightarrow> Some (x # ys))"

text \<open>An array of strings: each element is cast; a value that is no array is wrapped.\<close>

fun castStrings :: "val \<Rightarrow> val option" where
  "castStrings VNull = Some VNull"
| "castStrings (VArr xs) =
     (case those_all (map (castString (plain TString)) xs) of
        None \<Rightarrow> None | Some ys \<Rightarrow> Some (VArr ys))"
| "castStrings v =
     (case castString (plain TString) v of None \<Rightarrow> None | Some y \<Rightarrow> Some (VArr [y]))"

definition cast_val :: "field \<Rightarrow> val \<Rightarrow> val option" where
  "cast_val f v = (case ftype f of TString \<Rightarrow> castString f v
                   | TBoolean \<Rightarrow> castBoolean v
                   | TStrings \<Rightarrow> castStrings v)"

text \<open>
  A path parameter cast to an ObjectId: 24 hexadecimal digits, read as a number.
\<close>

definition hex_digit :: "char \<Rightarrow> nat option" where
  "hex_digit c = (let n = (of_char c :: nat) in
     if 48 \<le> n \<and> n \<le> 57 then Some (n - 48)
     else if 97 \<le> n \<and> n \<le> 102 then Some (n - 87)
     else if 65 \<le> n \<and> n \<le> 70 then Some (n - 55)
     else None)"

fun hex_value :: "nat \<Rightarrow> string \<Rightarrow> nat option" where
  "hex_value acc [] = Some acc"
| "hex_value acc (c # cs) =
     (case hex_digit c of None \<Rightarrow> None | Some h \<Rightarrow> hex_value (16 * acc + h) cs)"

definition castObjectId :: "string \<Rightarrow> nat option" where
  "castObjectId s = (if length s = 24 then hex_value 0 s else None)"

section \<open>The record store\<close>

text \<open>
  A collection is the list of its documents, in insertion order, together with the failure
  the driver reports while the store cannot be reached (\<open>None\<close> when it can). The
  operations below are the Mongoose calls the program makes, each returning what the call
  resolves to (\<open>Inr\<close>) or the error it rejects with (\<open>Inl\<close>). They follow Mongoose's
  documented behaviour: unknown keys are dropped (strict mode), values are cast to the
  path's type, validators (\<open>required\<close>, \<open>enum\<close>) run on \<open>save\<close> and not on the
  \<open>findOneAndUpdate\<close> family (\<open>runValidators\<close> is off unless asked for), unique indexes
  reject a second document with the same key, and \<open>timestamps\<close> maintains \<open>createdAt\<close>
  and \<open>updatedAt\<close>.

  The operations describe these calls for a document or an update whose keys are field
  names and nothing else. Mongoose reads more from the keys of what it is handed: a key
  with a dot (\<open>tech.0\<close>) is a path into a field, a key that begins with \<open>$\<close> is an
  update operator, and \<open>_id\<close>, \<open>__v\<close>, \<open>createdAt\<close> and \<open>updatedAt\<close> are paths of
  every schema although the program declares none of them. None of this is described
  here. The user and the section routes build their updates from named fields of the
  body; the generic controller hands over the body as it came, and the properties of its
  operations are stated for the bodies all of whose keys are declared paths
  (\<open>plain_body\<close> below).
\<close>

datatype error =
  Unreachable string | CastError string | ValidationError string | DuplicateKey string
  | IllegalArguments

text \<open>\<open>err.message\<close>; the libraries' wording is not reproduced.\<close>

fun err_message :: "error \<Rightarrow> string" where
  "err_message (Unreachable m) = m"
| "err_message (CastError p) = ''Cast failed at path '' @ p"
| "err_message (ValidationError p) = ''Validation failed at path '' @ p"
| "err_message (DuplicateKey p) = ''E11000 duplicate key error at '' @ p"
| "err_message IllegalArguments = ''Illegal arguments''"

record coll =
  docs :: "doc list"
  fault :: "string option"

type_synonym db = "string \<Rightarrow> coll"

subsection \<open>Filters\<close>

text \<open>
  A filter is a list of conditions \<open>path: value\<close>. A value that is \<open>undefined\<close>
  (\<open>findOne({ email })\<close> for a body without an email) reaches the store as \<open>null\<close>;
  \<open>null\<close> matches a document whose field is null or is not there; an array given for a
  path that is no array is read as \<open>$in\<close>. A cast condition is its test on a document
  and the fields an upsert takes from it.
\<close>

definition matches_val :: "val \<Rightarrow> val option \<Rightarrow> bool" where
  "matches_val c x = (if c = VNull then x = None \<or> x = Some VNull else x = Some c)"

definition cast_path :: "schema \<Rightarrow> string \<Rightarrow> val \<Rightarrow> error + ((doc \<Rightarrow> bool) \<times> doc)" where
  "cast_path s p v =
     (case map_of (paths s) p of
        None \<Rightarrow> Inr (\<lambda>d. matches_val v (map_of d p), [(p, v)])
      | Some f \<Rightarrow>
          (case (ftype f, v) of
             (TStrings, VArr xs) \<Rightarrow>
               (case castStrings v of None \<Rightarrow> Inl (CastError p)
                | Some c \<Rightarrow> Inr (\<lambda>d. map_of d p = Some c, [(p, c)]))
           | (TStrings, _) \<Rightarrow>
               (case castString (plain TString) v of None \<Rightarrow> Inl (CastError p)
                | Some c \<Rightarrow>
                    Inr (\<lambda>d. case map_of d p of Some (VArr ys) \<Rightarrow> c \<in> set ys
                              | x \<Rightarrow> matches_val c x, [(p, c)]))
           | (_, VArr xs) \<Rightarrow>
               (case those_all (map (cast_val f) xs) of None \<Rightarrow> Inl (CastError p)
                | Some cs \<Rightarrow> Inr (\<lambda>d. \<exists>c\<in>set cs. matches_val c (map_of d p), []))
           | _ \<Rightarrow>
               (case cast_val f v of None \<Rightarrow> Inl (CastError p)
                | Some c \<Rightarrow> Inr (\<lambda>d. matches_val c (map_of d p), [(p, c)]))))"

definition cast_cond :: "schema \<Rightarrow> string \<times> val option \<Rightarrow> error + ((doc \<Rightarrow> bool) \<times> doc)" where
  "cast_cond s cond =
     (case cond of
        (p, None) \<Rightarrow> cast_path s p VNull
      | (p, Some v) \<Rightarrow> cast_path s p v)"

fun cast_filter :: "schema \<Rightarrow> (string \<times> val option) list \<Rightarrow> error + ((doc \<Rightarrow> bool) \<times> doc)" where
  "cast_filter s [] = Inr (\<lambda>d. True, [])"
| "cast_filter s (c # cs) =
     (case cast_cond s c of Inl err \<Rightarrow> Inl err
      | Inr (t, eqs) \<Rightarrow>
          (case cast_filter s cs of Inl err \<Rightarrow> Inl err
           | Inr (t', eqs') \<Rightarrow> Inr (\<lambda>d. t d \<and> t' d, eqs @ eqs')))"

definition find_docs :: "schema \<Rightarrow> coll \<Rightarrow> (string \<times> val option) list \<Rightarrow> error + doc list" where
  "find_docs s c conds =
     (case cast_filter s conds of Inl err \<Rightarrow> Inl err
      | Inr (t, eqs) \<Rightarrow>
          (case fault c of Some m \<Rightarrow> Inl (Unreachable m)
           | None \<Rightarrow> Inr (filter t (docs c))))"

text \<open>
  \<open>.sort({ k: -1 })\<close> on a date field: latest first, documents without the date last.
  The order among equal dates is the store's choice; this is one.
\<close>

definition date_key :: "string \<Rightarrow> doc \<Rightarrow> nat option" where
  "date_key k d = (case map_of d k of Some (VDate t) \<Rightarrow> Some t | _ \<Rightarrow> None)"

definition sort_desc :: "string \<Rightarrow> doc list \<Rightarrow> doc list" where
  "sort_desc k ds = rev (sort_key (date_key k) ds)"

definition findOne :: "schema \<Rightarrow> coll \<Rightarrow> (string \<times> val option) list \<Rightarrow> error + doc option" where
  "findOne s c conds =
     (case find_docs s c conds of Inl err \<Rightarrow> Inl err
      | Inr ds \<Rightarrow> Inr (case ds of [] \<Rightarrow> None | d # _ \<Rightarrow> Some d))"

subsection \<open>Creating\<close>

text \<open>
  \<open>new Model(body)\<close>: the declared paths of the body, cast; a default where the body
  gives nothing; a value that cannot be cast is remembered until validation.
\<close>

fun build_fields :: "(string \<times> field) list \<Rightarrow> doc \<Rightarrow> doc \<times> string list" where
  "build_fields [] b = ([], [])"
| "build_fields ((p, f) # ps) b =
     (case build_fields ps b of (d, errs) \<Rightarrow>
        (case map_of b p of
           None \<Rightarrow> (case dflt f of None \<Rightarrow> (d, errs) | Some v \<Rightarrow> ((p, v) # d, errs))
         | Some v \<Rightarrow>
             (case cast_val f v of None \<Rightarrow> (d, p # errs) | Some c \<Rightarrow> ((p, c) # d, errs))))"

definition new_doc :: "schema \<Rightarrow> doc \<Rightarrow> doc \<times> string list" where
  "new_doc s b = build_fields (paths s) b"

definition required_ok :: "val option \<Rightarrow> bool" where
  "required_ok x = (case x of None \<Rightarrow> False | Some VNull \<Rightarrow> False
                    | Some (VStr str) \<Rightarrow> str \<noteq> [] | Some _ \<Rightarrow> True)"

definition enum_ok :: "field \<Rightarrow> val option \<Rightarrow> bool" where
  "enum_ok f x = (case enumValues f of None \<Rightarrow> True
     | Some vs \<Rightarrow> (case x of None \<Rightarrow> True | Some VNull \<Rightarrow> True
                   | Some (VStr str) \<Rightarrow> str \<in> set vs | Some _ \<Rightarrow> False))"

text \<open>The first path that fails validation, if any.\<close>

definition invalid_path :: "schema \<Rightarrow> doc \<times> string list \<Rightarrow> string option" where
  "invalid_path s item =
     (case item of (d, errs) \<Rightarrow>
        map_option fst
          (find (\<lambda>(p, f). p \<in> set errs \<or> (required f \<and> \<not> required_ok (map_of d p))
                           \<or> \<not> enum_ok f (map_of d p))
             (paths s)))"

text \<open>A unique index treats a missing field as \<open>null\<close>.\<close>

definition index_val :: "doc \<Rightarrow> string \<Rightarrow> val" where
  "index_val d p = (case map_of d p of None \<Rightarrow> VNull | Some v \<Rightarrow> v)"

definition unique_paths :: "schema \<Rightarrow> string list" where
  "unique_paths s = map fst (filter (\<lambda>(p, f). unique f) (paths s))"

text \<open>The first unique path on which the document collides with one of the others.\<close>

definition duplicate_key :: "string list \<Rightarrow> doc \<Rightarrow> doc list \<Rightarrow> string option" where
  "duplicate_key ps d others = find (\<lambda>p. \<exists>x\<in>set others. index_val x p = index_val d p) ps"

text \<open>A new ObjectId: one that no document of the collection has.\<close>

definition fresh_id :: "doc list \<Rightarrow> nat" where
  "fresh_id ds =
     Suc (fold max (List.map_filter (\<lambda>d. case map_of d ''_id'' of Some (VId i) \<Rightarrow> Some i
                                          | _ \<Rightarrow> None) ds) 0)"

definition stamps :: "schema \<Rightarrow> nat \<Rightarrow> doc" where
  "stamps s now = (if timestamps s then [(''createdAt'', VDate now), (''updatedAt'', VDate now)]
                   else [])"

text \<open>\<open>item.save()\<close> of a new document: validate, then insert.\<close>

definition save :: "schema \<Rightarrow> nat \<Rightarrow> coll \<Rightarrow> doc \<times> string list \<Rightarrow> error + (doc \<times> coll)" where
  "save s now c item =
     (case invalid_path s item of Some p \<Rightarrow> Inl (ValidationError p)
      | None \<Rightarrow>
          (case fault c of Some m \<Rightarrow> Inl (Unreachable m)
           | None \<Rightarrow>
               (let d = (''_id'', VId (fresh_id (docs c))) # fst item @ stamps s now
                        @ [(''__v'', VNum 0)]
                in case duplicate_key (unique_paths s) d (docs c) of
                     Some p \<Rightarrow> Inl (DuplicateKey p)
                   | None \<Rightarrow> Inr (d, c\<lparr>docs := docs c @ [d]\<rparr>))))"

subsection \<open>Updating and deleting\<close>

text \<open>The update document: the declared paths of the body, cast (\<open>$set\<close>).\<close>

fun cast_fields :: "(string \<times> field) list \<Rightarrow> doc \<Rightarrow> error + doc" where
  "cast_fields [] upd = Inr []"
| "cast_fields ((p, f) # ps) upd =
     (case map_of upd p of
        None \<Rightarrow> cast_fields ps upd
      | Some v \<Rightarrow>
          (case cast_val f v of None \<Rightarrow> Inl (CastError p)
           | Some c \<Rightarrow>
               (case cast_fields ps upd of Inl err \<Rightarrow> Inl err
                | Inr sets \<Rightarrow> Inr ((p, c) # sets))))"

fun set_fields :: "doc \<Rightarrow> doc \<Rightarrow> doc" where
  "set_fields [] d = d"
| "set_fields ((k, v) # kvs) d = set_fields kvs (AList.update k v d)"

definition modify :: "schema \<Rightarrow> nat \<Rightarrow> doc \<Rightarrow> doc \<Rightarrow> doc" where
  "modify s now sets d =
     set_fields (sets @ (if timestamps s then [(''updatedAt'', VDate now)] else [])) d"

text \<open>The documents before the first match, the match, and those after it.\<close>

fun split_first :: "('a \<Rightarrow> bool) \<Rightarrow> 'a list \<Rightarrow> ('a list \<times> 'a \<times> 'a list) option" where
  "split_first t [] = None"
| "split_first t (x # xs) =
     (if t x then Some ([], x, xs)
      else (case split_first t xs of None \<Rightarrow> None
            | Some (pre, y, post) \<Rightarrow> Some (x # pre, y, post)))"

text \<open>The defaults \<open>setDefaultsOnInsert\<close> adds: those of the paths not given otherwise.\<close>

definition insert_defaults :: "schema \<Rightarrow> doc \<Rightarrow> doc" where
  "insert_defaults s given =
     List.map_filter (\<lambda>(p, f). case dflt f of None \<Rightarrow> None
                               | Some v \<Rightarrow> if map_of given p = None then Some (p, v) else None)
       (paths s)"

text \<open>
  The document an upsert inserts when nothing matches: the filter's equalities \<open>eqs\<close>
  with the update applied, the schema's defaults when \<open>defaults\<close> is set, and what the
  store maintains.
\<close>

definition upserted :: "schema \<Rightarrow> nat \<Rightarrow> doc list \<Rightarrow> doc \<Rightarrow> doc \<Rightarrow> bool \<Rightarrow> doc" where
  "upserted s now ds sets eqs defaults =
     (let given = set_fields sets eqs
      in (''_id'', VId (fresh_id ds))
         # given @ (if defaults then insert_defaults s given else [])
         @ stamps s now @ [(''__v'', VNum 0)])"

text \<open>
  The write of the \<open>findOneAndUpdate\<close> family with \<open>new: true\<close>: the first document that
  passes the test is modified and returned. With \<open>ins = Some (eqs, defaults)\<close> (an
  upsert) and no match, a document is inserted. A unique index is checked for the keys
  the write changes.
\<close>

definition update_where ::
  "schema \<Rightarrow> nat \<Rightarrow> coll \<Rightarrow> (doc \<Rightarrow> bool) \<Rightarrow> doc \<Rightarrow> (doc \<times> bool) option
     \<Rightarrow> error + (doc option \<times> coll)" where
  "update_where s now c t sets ins =
     (case fault c of Some m \<Rightarrow> Inl (Unreachable m)
      | None \<Rightarrow>
          (case split_first t (docs c) of
             Some (pre, d, post) \<Rightarrow>
               (let d' = modify s now sets d;
                    changed = filter (\<lambda>p. index_val d' p \<noteq> index_val d p) (unique_paths s)
                in case duplicate_key changed d' (pre @ post) of
                     Some p \<Rightarrow> Inl (DuplicateKey p)
                   | None \<Rightarrow> Inr (Some d', c\<lparr>docs := pre @ d' # post\<rparr>))
           | None \<Rightarrow>
               (case ins of None \<Rightarrow> Inr (None, c)
                | Some (eqs, defaults) \<Rightarrow>
                    (let d' = upserted s now (docs c) sets eqs defaults
                     in case duplicate_key (unique_paths s) d' (docs c) of
                          Some p \<Rightarrow> Inl (DuplicateKey p)
                        | None \<Rightarrow> Inr (Some d', c\<lparr>docs := docs c @ [d']\<rparr>)))))"

definition has_id :: "nat \<Rightarrow> doc \<Rightarrow> bool" where
  "has_id i d = (map_of d ''_id'' = Some (VId i))"

text \<open>\<open>Model.findByIdAndUpdate(id, upd, { new: true })\<close>.\<close>

definition findByIdAndUpdate ::
  "schema \<Rightarrow> nat \<Rightarrow> coll \<Rightarrow> string \<Rightarrow> doc \<Rightarrow> error + (doc option \<times> coll)" where
  "findByIdAndUpdate s now c ident upd =
     (case castObjectId ident of None \<Rightarrow> Inl (CastError ''_id'')
      | Some i \<Rightarrow>
          (case cast_fields (paths s) upd of Inl err \<Rightarrow> Inl err
           | Inr sets \<Rightarrow> update_where s now c (has_id i) sets None))"

text \<open>\<open>Model.findOneAndUpdate(conds, upd, { new: true, upsert: true, ... })\<close>.\<close>

definition findOneAndUpdate ::
  "schema \<Rightarrow> nat \<Rightarrow> coll \<Rightarrow> (string \<times> val option) list \<Rightarrow> doc \<Rightarrow> bool
     \<Rightarrow> error + (doc option \<times> coll)" where
  "findOneAndUpdate s now c conds upd setDefaultsOnInsert =
     (case cast_filter s conds of Inl err \<Rightarrow> Inl err
      | Inr (t, eqs) \<Rightarrow>
          (case cast_fields (paths s) upd of Inl err \<Rightarrow> Inl err
           | Inr sets \<Rightarrow> update_where s now c t sets (Some (eqs, setDefaultsOnInsert))))"

text \<open>\<open>Model.findByIdAndDelete(id)\<close>.\<close>

definition findByIdAndDelete :: "coll \<Rightarrow> string \<Rightarrow> error + (doc option \<times> coll)" where
  "findByIdAndDelete c ident =
     (case castObjectId ident of None \<Rightarrow> Inl (CastError ''_id'')
      | Some i \<Rightarrow>
          (case fault c of Some m \<Rightarrow> Inl (Unreachable m)
           | None \<Rightarrow>
               (case split_first (has_id i) (docs c) of
                  None \<Rightarrow> Inr (None, c)
                | Some (pre, d, post) \<Rightarrow> Inr (Some d, c\<lparr>docs := pre @ post\<rparr>))))"

text \<open>
  An object literal whose property values may be \<open>undefined\<close>: JSON leaves such
  properties out, and so does Mongoose in an update.
\<close>

fun object :: "(string \<times> val option) list \<Rightarrow> doc" where
  "object [] = []"
| "object ((k, None) # kvs) = object kvs"
| "object ((k, Some v) # kvs) = (k, v) # object kvs"

section \<open>The controller factory\<close>

text \<open>
  The database maps a model's name to its collection. A request also draws a reading of
  the clock and, where a password is hashed, a salt from bcrypt's generator. A handler
  returns its response and the database it leaves.
\<close>

record tick =
  clock :: nat
  genSalt :: string

text \<open>\<open>res.json(x)\<close> of a document or \<open>null\<close>.\<close>

definition json_opt :: "doc option \<Rightarrow> payload" where
  "json_opt x = (case x of None \<Rightarrow> Null | Some d \<Rightarrow> Obj d)"

definition getPublic :: "model \<Rightarrow> db \<Rightarrow> response" where
  "getPublic M db =
     (case find_docs (schema M) (db (modelName M)) [(''published'', Some (VBool True))] of
        Inl err \<Rightarrow> message 500 (err_message err)
      | Inr items \<Rightarrow> Response 200 (Arr (sort_desc ''createdAt'' items)))"

definition getAllAdmin :: "model \<Rightarrow> db \<Rightarrow> response" where
  "getAllAdmin M db =
     (case find_docs (schema M) (db (modelName M)) [] of
        Inl err \<Rightarrow> message 500 (err_message err)
      | Inr items \<Rightarrow> Response 200 (Arr (sort_desc ''createdAt'' items)))"

definition create :: "model \<Rightarrow> tick \<Rightarrow> db \<Rightarrow> request \<Rightarrow> response \<times> db" where
  "create M t db req =
     (let item = new_doc (schema M) (body req)
      in case save (schema M) (clock t) (db (modelName M)) item of
           Inl err \<Rightarrow> (message 400 (err_message err), db)
         | Inr (newItem, c') \<Rightarrow> (Response 201 (Obj newItem), db(modelName M := c')))"

definition update :: "model \<Rightarrow> tick \<Rightarrow> db \<Rightarrow> string \<Rightarrow> request \<Rightarrow> response \<times> db" where
  "update M t db ident req =
     (case findByIdAndUpdate (schema M) (clock t) (db (modelName M)) ident (body req) of
        Inl err \<Rightarrow> (message 400 (err_message err), db)
      | Inr (None, c') \<Rightarrow> (message 404 ''Item not found'', db)
      | Inr (Some updatedItem, c') \<Rightarrow> (Response 200 (Obj updatedItem), db(modelName M := c')))"

definition delete :: "model \<Rightarrow> db \<Rightarrow> string \<Rightarrow> response \<times> db" where
  "delete M db ident =
     (case findByIdAndDelete (db (modelName M)) ident of
        Inl err \<Rightarrow> (message 500 (err_message err), db)
      | Inr (None, c') \<Rightarrow> (message 404 ''Item not found'', db)
      | Inr (Some item, c') \<Rightarrow> (message 200 ''Item deleted successfully'', db(modelName M := c')))"

definition getSingleton :: "model \<Rightarrow> db \<Rightarrow> response" where
  "getSingleton M db =
     (case findOne (schema M) (db (modelName M)) [(''singleton'', Some (VStr ''main''))] of
        Inl err \<Rightarrow> message 500 (err_message err)
      | Inr item \<Rightarrow> Response 200 (case item of None \<Rightarrow> Obj [] | Some d \<Rightarrow> Obj d))"

definition updateSingleton :: "model \<Rightarrow> tick \<Rightarrow> db \<Rightarrow> request \<Rightarrow> response \<times> db" where
  "updateSingleton M t db req =
     (case findOneAndUpdate (schema M) (clock t) (db (modelName M))
             [(''singleton'', Some (VStr ''main''))] (body req) True of
        Inl err \<Rightarrow> (message 400 (err_message err), db)
      | Inr (updatedItem, c') \<Rightarrow> (Response 200 (json_opt updatedItem), db(modelName M := c')))"

section \<open>Routes\<close>

text \<open>
  A router is the list of its routes in the order they are registered; a request goes to
  the first whose method and path match, through that route's gate if it has one. A path is
  the list of its segments below the router's mount point; \<open>Param\<close> is \<open>'/:id'\<close>, whose
  segment the handler receives. Express compares a literal segment without regard to the
  case of its letters (\<open>caseSensitive\<close> is off unless asked for).
\<close>

datatype pattern = Root | Lit string | Param

type_synonym handler = "tick \<Rightarrow> db \<Rightarrow> string \<Rightarrow> request \<Rightarrow> response \<times> db"

record route =
  r_method :: http_method
  r_pattern :: pattern
  r_gate :: "string option"
  r_handler :: handler

fun match_path :: "pattern \<Rightarrow> string list \<Rightarrow> string option" where
  "match_path Root [] = Some []"
| "match_path (Lit l) [x] = (if toLowerCase x = toLowerCase l then Some [] else None)"
| "match_path Param [x] = Some x"
| "match_path _ _ = None"

definition run_route :: "env \<Rightarrow> route \<Rightarrow> tick \<Rightarrow> db \<Rightarrow> string \<Rightarrow> request \<Rightarrow> response \<times> db" where
  "run_route e r t db param req =
     (case r_gate r of
        None \<Rightarrow> r_handler r t db param req
      | Some requiredRole \<Rightarrow>
          (case authMiddleware e (clock t) requiredRole req of
             Respond res \<Rightarrow> (res, db)
           | Next req' \<Rightarrow> r_handler r t db param req'))"

fun dispatch ::
  "env \<Rightarrow> route list \<Rightarrow> tick \<Rightarrow> db \<Rightarrow> http_method \<Rightarrow> string list \<Rightarrow> request
     \<Rightarrow> (response \<times> db) option" where
  "dispatch e [] t db m path req = None"
| "dispatch e (r # rs) t db m path req =
     (if r_method r = m
      then (case match_path (r_pattern r) path of
              Some param \<Rightarrow> Some (run_route e r t db param req)
            | None \<Rightarrow> dispatch e rs t db m path req)
      else dispatch e rs t db m path req)"

text \<open>\<open>defineCrudRoutes\<close>; \<open>authMiddleware()\<close> is \<open>authMiddleware('Editor')\<close>.\<close>

definition defineCrudRoutes :: "model \<Rightarrow> route list" where
  "defineCrudRoutes M =
     [\<lparr>r_method = GET, r_pattern = Root, r_gate = None,
        r_handler = (\<lambda>t db param req. (getPublic M db, db))\<rparr>,
      \<lparr>r_method = GET, r_pattern = Lit ''all'', r_gate = Some ''Editor'',
        r_handler = (\<lambda>t db param req. (getAllAdmin M db, db))\<rparr>,
      \<lparr>r_method = POST, r_pattern = Root, r_gate = Some ''Editor'',
        r_handler = (\<lambda>t db param req. create M t db req)\<rparr>,
      \<lparr>r_method = PUT, r_pattern = Param, r_gate = Some ''Editor'',
        r_handler = (\<lambda>t db param req. update M t db param req)\<rparr>,
      \<lparr>r_method = DELETE, r_pattern = Param, r_gate = Some ''Administrator'',
        r_handler = (\<lambda>t db param req. delete M db param)\<rparr>]"

subsection \<open>Login\<close>

text \<open>bcryptjs rejects an argument that is no string.\<close>

definition hashPassword :: "env \<Rightarrow> string \<Rightarrow> val option \<Rightarrow> error + string" where
  "hashPassword e slt password =
     (case password of Some (VStr p) \<Rightarrow> Inr (bcrypt_hash e p slt) | _ \<Rightarrow> Inl IllegalArguments)"

definition verifyPassword :: "env \<Rightarrow> val option \<Rightarrow> val option \<Rightarrow> error + bool" where
  "verifyPassword e providedPassword storedHash =
     (case (providedPassword, storedHash) of
        (Some (VStr p), Some (VStr h)) \<Rightarrow> Inr (bcrypt_compare e p h)
      | _ \<Rightarrow> Inl IllegalArguments)"

text \<open>\<open>expiresIn: '8h'\<close>, in seconds.\<close>

definition expiresIn :: nat where
  "expiresIn = 8 * 60 * 60"

definition login :: "env \<Rightarrow> tick \<Rightarrow> db \<Rightarrow> request \<Rightarrow> response" where
  "login e t db req =
     (let email = map_of (body req) ''email''; password = map_of (body req) ''password''
      in case findOne userSchema (db (modelName User)) [(''email'', email)] of
           Inl err \<Rightarrow> message 500 ''Server error''
         | Inr found \<Rightarrow>
             (case found of
                None \<Rightarrow> message 401 ''Invalid credentials or inactive user.''
              | Some u \<Rightarrow>
                  if map_of u ''status'' \<noteq> Some (VStr ''Active'')
                  then message 401 ''Invalid credentials or inactive user.''
                  else (case verifyPassword e password (map_of u ''passwordHash'') of
                          Inl err \<Rightarrow> message 500 ''Server error''
                        | Inr isMatch \<Rightarrow>
                            if \<not> isMatch then message 401 ''Invalid credentials.''
                            else (let payload = object [(''id'', map_of u ''_id''),
                                                  (''name'', map_of u ''name''),
                                                  (''role'', map_of u ''role'')];
                                      token = jwt_sign e payload (secret e) expiresIn (clock t)
                                  in Response 200
                                       (Obj (object [(''token'', Some (VStr token)),
                                                     (''name'', map_of u ''name''),
                                                     (''role'', map_of u ''role'')]))))))"

definition authRouter :: "env \<Rightarrow> route list" where
  "authRouter e =
     [\<lparr>r_method = POST, r_pattern = Lit ''login'', r_gate = None,
        r_handler = (\<lambda>t db param req. (login e t db req, db))\<rparr>]"

subsection \<open>User management\<close>

definition users_post :: "env \<Rightarrow> tick \<Rightarrow> db \<Rightarrow> request \<Rightarrow> response \<times> db" where
  "users_post e t db req =
     (let name = map_of (body req) ''name''; email = map_of (body req) ''email'';
          password = map_of (body req) ''password''; role = map_of (body req) ''role'';
          status = map_of (body req) ''status''
      in if \<not> truthy name \<or> \<not> truthy email \<or> \<not> truthy password \<or> \<not> truthy role
            \<or> \<not> truthy status
         then (message 400 ''All fields are required'', db)
         else (case findOne userSchema (db (modelName User)) [(''email'', email)] of
                 Inl err \<Rightarrow> (message 400 (err_message err), db)
               | Inr (Some existingUser) \<Rightarrow> (message 400 ''Email already exists'', db)
               | Inr None \<Rightarrow>
                   (case hashPassword e (genSalt t) password of
                      Inl err \<Rightarrow> (message 400 (err_message err), db)
                    | Inr passwordHash \<Rightarrow>
                        (case save userSchema (clock t) (db (modelName User))
                                (new_doc userSchema
                                   (object [(''name'', name), (''email'', email),
                                            (''passwordHash'', Some (VStr passwordHash)),
                                            (''role'', role), (''status'', status)])) of
                           Inl err \<Rightarrow> (message 400 (err_message err), db)
                         | Inr (newUser, c') \<Rightarrow>
                             (Response 201
                                (Obj (object [(''id'', map_of newUser ''_id''), (''name'', name),
                                              (''email'', email), (''role'', role),
                                              (''status'', status)])),
                              db(modelName User := c'))))))"

text \<open>
  \<open>password && password.length > 0\<close>: only a string and an array have a \<open>length\<close>.
\<close>

definition has_length :: "val option \<Rightarrow> bool" where
  "has_length password =
     (case password of Some (VStr p) \<Rightarrow> p \<noteq> [] | Some (VArr xs) \<Rightarrow> xs \<noteq> [] | _ \<Rightarrow> False)"

text \<open>A property that is set only under a condition (\<open>if (name) updateData.name = name\<close>).\<close>

definition when_truthy :: "string \<Rightarrow> val option \<Rightarrow> (string \<times> val option) list" where
  "when_truthy k v = (if truthy v then [(k, v)] else [])"

definition users_put :: "env \<Rightarrow> tick \<Rightarrow> db \<Rightarrow> string \<Rightarrow> request \<Rightarrow> response \<times> db" where
  "users_put e t db ident req =
     (let name = map_of (body req) ''name''; email = map_of (body req) ''email'';
          role = map_of (body req) ''role''; status = map_of (body req) ''status'';
          password = map_of (body req) ''password'';
          updateData = when_truthy ''name'' name @ when_truthy ''email'' email
                       @ when_truthy ''role'' role @ when_truthy ''status'' status
      in case (if truthy password \<and> has_length password
               then (case hashPassword e (genSalt t) password of
                       Inl err \<Rightarrow> Inl err
                     | Inr h \<Rightarrow> Inr (updateData @ [(''passwordHash'', Some (VStr h))]))
               else Inr updateData) of
           Inl err \<Rightarrow> (message 400 (err_message err), db)
         | Inr updateData' \<Rightarrow>
             (case findByIdAndUpdate userSchema (clock t) (db (modelName User)) ident
                     (object updateData') of
                Inl err \<Rightarrow> (message 400 (err_message err), db)
              | Inr (None, c') \<Rightarrow> (message 404 ''User not found'', db)
              | Inr (Some updated, c') \<Rightarrow>
                  (Response 200 (Obj (AList.delete ''passwordHash'' updated)),
                   db(modelName User := c'))))"

definition userRouter :: "env \<Rightarrow> route list" where
  "userRouter e =
     [\<lparr>r_method = GET, r_pattern = Root, r_gate = Some ''Administrator'',
        r_handler = (\<lambda>t db param req. (getAllAdmin User db, db))\<rparr>,
      \<lparr>r_method = POST, r_pattern = Root, r_gate = Some ''Administrator'',
        r_handler = (\<lambda>t db param req. users_post e t db req)\<rparr>,
      \<lparr>r_method = PUT, r_pattern = Param, r_gate = Some ''Administrator'',
        r_handler = (\<lambda>t db param req. users_put e t db param req)\<rparr>,
      \<lparr>r_method = DELETE, r_pattern = Param, r_gate = Some ''Administrator'',
        r_handler = (\<lambda>t db param req. delete User db param)\<rparr>]"

subsection \<open>Singletons and keyed sections\<close>

definition singletonRouter :: "model \<Rightarrow> route list" where
  "singletonRouter M =
     [\<lparr>r_method = GET, r_pattern = Root, r_gate = None,
        r_handler = (\<lambda>t db param req. (getSingleton M db, db))\<rparr>,
      \<lparr>r_method = PUT, r_pattern = Root, r_gate = Some ''Editor'',
        r_handler = (\<lambda>t db param req. updateSingleton M t db req)\<rparr>]"

definition sections_get :: "db \<Rightarrow> string \<Rightarrow> response" where
  "sections_get db sectionId =
     (case findOne singleSectionSchema (db (modelName SingleSection))
             [(''sectionId'', Some (VStr sectionId))] of
        Inl err \<Rightarrow> message 500 (err_message err)
      | Inr item \<Rightarrow> Response 200 (case item of None \<Rightarrow> Obj [] | Some d \<Rightarrow> Obj d))"

text \<open>
  The options are \<open>{ new: true, upsert: true }\<close>; the schema declares no default, so
  \<open>setDefaultsOnInsert\<close> makes no difference.
\<close>

definition sections_put :: "tick \<Rightarrow> db \<Rightarrow> string \<Rightarrow> request \<Rightarrow> response \<times> db" where
  "sections_put t db sectionId req =
     (let title = map_of (body req) ''title''; description = map_of (body req) ''description''
      in case findOneAndUpdate singleSectionSchema (clock t) (db (modelName SingleSection))
                [(''sectionId'', Some (VStr sectionId))]
                (object [(''title'', title), (''description'', description)]) False of
           Inl err \<Rightarrow> (message 400 (err_message err), db)
         | Inr (updatedSection, c') \<Rightarrow>
             (Response 200 (json_opt updatedSection), db(modelName SingleSection := c')))"

definition singleSectionRouter :: "route list" where
  "singleSectionRouter =
     [\<lparr>r_method = GET, r_pattern = Param, r_gate = None,
        r_handler = (\<lambda>t db param req. (sections_get db param, db))\<rparr>,
      \<lparr>r_method = PUT, r_pattern = Param, r_gate = Some ''Editor'',
        r_handler = (\<lambda>t db param req. sections_put t db param req)\<rparr>]"

subsection \<open>The application\<close>

text \<open>
  \<open>app.use('/api/...', router)\<close>; the mount path too is matched without regard to case.
  \<open>None\<close>: no route of the program answers, and Express replies with its own 404.
\<close>

definition mounts :: "env \<Rightarrow> (string \<times> route list) list" where
  "mounts e =
     [(''auth'', authRouter e),
      (''projects'', defineCrudRoutes Project),
      (''experience'', defineCrudRoutes Experience),
      (''expertise'', defineCrudRoutes Expertise),
      (''logs'', defineCrudRoutes EngineeringLog),
      (''users'', userRouter e),
      (''personal-info'', singletonRouter PersonalInfo),
      (''skills'', singletonRouter Skills),
      (''sections'', singleSectionRouter)]"

definition app ::
  "env \<Rightarrow> tick \<Rightarrow> db \<Rightarrow> http_method \<Rightarrow> string list \<Rightarrow> request \<Rightarrow> (response \<times> db) option" where
  "app e t db m url req =
     (case url of
        a # mount # rest \<Rightarrow>
          if toLowerCase a = ''api''
          then (case map_of (mounts e) (toLowerCase mount) of
                  None \<Rightarrow> None
                | Some routes \<Rightarrow> dispatch e routes t db m rest req)
          else None
      | _ \<Rightarrow> None)"

section \<open>Vocabulary of the properties\<close>

text \<open>The four content resources, in the order \<open>defineCrudRoutes\<close> is called for them.\<close>

definition content_models :: "model list" where
  "content_models = [Project, Experience, Expertise, EngineeringLog]"

definition crud_mounts :: "(string \<times> model) list" where
  "crud_mounts = [(''projects'', Project), (''experience'', Experience),
     (''expertise'', Expertise), (''logs'', EngineeringLog)]"

definition singleton_models :: "model list" where
  "singleton_models = [PersonalInfo, Skills]"

text \<open>A record whose published flag is true.\<close>

definition published :: "doc \<Rightarrow> bool" where
  "published d = (map_of d ''published'' = Some (VBool True))"

text \<open>
  A record that carries a given string at a key path; the record a singleton route
  addresses, and the one a section key addresses.
\<close>

definition keyed :: "string \<Rightarrow> string \<Rightarrow> doc \<Rightarrow> bool" where
  "keyed kp kv d = (map_of d kp = Some (VStr kv))"

definition is_main :: "doc \<Rightarrow> bool" where
  "is_main d = (map_of d ''singleton'' = Some (VStr ''main''))"

definition has_key :: "string \<Rightarrow> doc \<Rightarrow> bool" where
  "has_key k d = (map_of d ''sectionId'' = Some (VStr k))"






text \<open>The fields \<open>updateData\<close> takes from the body of a user update, the password apart.\<close>

definition profile_fields :: "doc \<Rightarrow> (string \<times> val option) list" where
  "profile_fields b =
     when_truthy ''name'' (map_of b ''name'') @ when_truthy ''email'' (map_of b ''email'')
     @ when_truthy ''role'' (map_of b ''role'') @ when_truthy ''status'' (map_of b ''status'')"

text \<open>The stored password hashes of a collection, record by record.\<close>

definition hashes :: "coll \<Rightarrow> val option list" where
  "hashes c = map (\<lambda>d. map_of d ''passwordHash'') (docs c)"

text \<open>The update the section route builds from a body: \<open>{ title, description }\<close>.\<close>

definition section_update :: "doc \<Rightarrow> doc" where
  "section_update b = object [(''title'', map_of b ''title''),
     (''description'', map_of b ''description'')]"





section \<open>Sample data\<close>

text \<open>
  A small environment and a few requests at which the theorems below are applied: a token
  library that knows two tokens, and a password hash that prefixes the salt.
\<close>

definition sample_claims :: "string \<Rightarrow> doc" where
  "sample_claims r = [(''id'', VId 1), (''name'', VStr ''Ann''), (''role'', VStr r)]"

definition sample_env :: env where
  "sample_env = \<lparr>JWT_SECRET = None,
     jwt_sign = (\<lambda>payload key life iat.
        if map_of payload ''role'' = Some (VStr ''Administrator'') then ''tok-admin''
        else ''tok-editor''),
     jwt_verify = (\<lambda>token key now.
        if token = ''tok-admin'' then Some (sample_claims ''Administrator'')
        else if token = ''tok-editor'' then Some (sample_claims ''Editor'')
        else None),
     bcrypt_hash = (\<lambda>p slt. slt @ p),
     bcrypt_compare = (\<lambda>p h. drop 2 h = p)\<rparr>"

definition sample_request :: "string option \<Rightarrow> doc \<Rightarrow> request" where
  "sample_request h b = \<lparr>authorization = h, body = b, user = None\<rparr>"

definition sample_tick :: tick where
  "sample_tick = \<lparr>clock = 100, genSalt = ''s1''\<rparr>"

definition sample_project :: "nat \<Rightarrow> bool \<Rightarrow> nat \<Rightarrow> doc" where
  "sample_project i pub created =
     [(''_id'', VId i), (''title'', VStr ''Site''), (''description'', VStr ''A site''),
      (''tech'', VArr []), (''published'', VBool pub), (''createdAt'', VDate created),
      (''updatedAt'', VDate created), (''__v'', VNum 0)]"

definition sample_user :: "nat \<Rightarrow> string \<Rightarrow> string \<Rightarrow> string \<Rightarrow> string \<Rightarrow> doc" where
  "sample_user i mail h r st =
     [(''_id'', VId i), (''name'', VStr ''Ann''), (''email'', VStr mail),
      (''passwordHash'', VStr h), (''role'', VStr r), (''status'', VStr st), (''__v'', VNum 0)]"

definition sample_section :: "nat \<Rightarrow> string \<Rightarrow> string \<Rightarrow> doc" where
  "sample_section i k ttl =
     [(''_id'', VId i), (''sectionId'', VStr k), (''title'', VStr ttl),
      (''description'', VStr ''Text''), (''__v'', VNum 0)]"

definition empty_db :: db where
  "empty_db = (\<lambda>n. \<lparr>docs = [], fault = None\<rparr>)"

definition sample_db :: db where
  "sample_db = empty_db
     (''Project'' := \<lparr>docs = [sample_project 1 True 10, sample_project 2 False 20,
                            sample_project 3 True 30], fault = None\<rparr>,
      ''User'' := \<lparr>docs = [sample_user 1 ''ann@x.io'' ''s0pw1'' ''Administrator'' ''Active'',
                         sample_user 2 ''bob@x.io'' ''s0pw2'' ''Editor'' ''Inactive''],
                 fault = None\<rparr>,
      ''SingleSection'' := \<lparr>docs = [sample_section 1 ''resume'' ''My Resume'',
                                  sample_section 2 ''contact'' ''Contact''], fault = None\<rparr>)"

text \<open>The path parameters that name the ObjectIds 1, 4 and 9.\<close>

definition oid1 :: string where "oid1 = ''000000000000000000000001''"


section \<open>The gate's outcomes\<close>

lemma js_split_nonempty: "js_split s \<noteq> []"
  by (induction s) (auto split: list.splits)

lemma js_split_no_space: "CHR '' '' \<notin> set s \<Longrightarrow> js_split s = [s]"
  by (induction s) auto

lemma js_split_append:
  "CHR '' '' \<notin> set a \<Longrightarrow> js_split (a @ CHR '' '' # b) = a # js_split b"
  by (induction a) auto

lemma presented_bearer:
  assumes "CHR '' '' \<notin> set t" and "t \<noteq> []"
  shows "presented (req\<lparr>authorization := Some (''Bearer '' @ t)\<rparr>) = Some t"
proof -
  have "js_split (''Bearer'' @ CHR '' '' # t) = ''Bearer'' # js_split t"
    by (rule js_split_append) simp
  then have "js_split (''Bearer '' @ t) = [''Bearer'', t]"
    using assms(1) by (simp add: js_split_no_space)
  then show ?thesis
    using assms(2) by (simp add: presented_def header_token_def)
qed

lemma presented_absent: "authorization req = None \<Longrightarrow> presented req = None"
  by (simp add: presented_def header_token_def)

text \<open>
  C1. The gate gives one of four outcomes, decided in this order: no token in the
  Authorization header (no header at all, or no second space-separated piece): 401 and the
  handler is not reached; a token that does not verify: 400; a token that verifies while
  the gate asks for Administrator and the role claim is another: 403; otherwise the
  decoded claims are put on the request and the handler is reached. A header
  \<open>Bearer t\<close> presents the token \<open>t\<close>.
\<close>

theorem authMiddleware_outcomes:
  "(presented req = None \<longrightarrow>
      authMiddleware e now r req = Respond (message 401 ''Access denied. No token provided.''))
   \<and> (\<forall>t. presented req = Some t \<and> jwt_verify e t (secret e) now = None \<longrightarrow>
      authMiddleware e now r req = Respond (message 400 ''Invalid token.''))
   \<and> (\<forall>t d. presented req = Some t \<and> jwt_verify e t (secret e) now = Some d
        \<and> r = ''Administrator'' \<and> map_of d ''role'' \<noteq> Some (VStr ''Administrator'') \<longrightarrow>
      authMiddleware e now r req
        = Respond (message 403 ''Forbidden: Administrator access required.''))
   \<and> (\<forall>t d. presented req = Some t \<and> jwt_verify e t (secret e) now = Some d
        \<and> \<not> (r = ''Administrator'' \<and> map_of d ''role'' \<noteq> Some (VStr ''Administrator'')) \<longrightarrow>
      authMiddleware e now r req = Next (req\<lparr>user := Some d\<rparr>))
   \<and> (authorization req = None \<longrightarrow> presented req = None)
   \<and> (\<forall>t. CHR '' '' \<notin> set t \<and> t \<noteq> [] \<longrightarrow>
        presented (req\<lparr>authorization := Some (''Bearer '' @ t)\<rparr>) = Some t)"
proof -
  have "presented req = None \<Longrightarrow>
      authMiddleware e now r req = Respond (message 401 ''Access denied. No token provided.'')"
    by (auto simp: presented_def authMiddleware_def split: option.splits if_splits)
  moreover have "\<And>t. presented req = Some t \<Longrightarrow>
      authMiddleware e now r req =
        (case jwt_verify e t (secret e) now of
           None \<Rightarrow> Respond (message 400 ''Invalid token.'')
         | Some d \<Rightarrow>
             if r = ''Administrator'' \<and> map_of d ''role'' \<noteq> Some (VStr ''Administrator'')
             then Respond (message 403 ''Forbidden: Administrator access required.'')
             else Next (req\<lparr>user := Some d\<rparr>))"
    by (auto simp: presented_def authMiddleware_def split: option.splits if_splits)
  ultimately show ?thesis
    using presented_bearer presented_absent by auto
qed

theorem authMiddleware_outcomes_witness:
  "authMiddleware sample_env 0 ''Editor'' (sample_request None [])
     = Respond (message 401 ''Access denied. No token provided.'')
   \<and> authMiddleware sample_env 0 ''Editor'' (sample_request (Some ''Bearer forged'') [])
     = Respond (message 400 ''Invalid token.'')
   \<and> authMiddleware sample_env 0 ''Administrator'' (sample_request (Some ''Bearer tok-editor'') [])
     = Respond (message 403 ''Forbidden: Administrator access required.'')
   \<and> authMiddleware sample_env 0 ''Administrator'' (sample_request (Some ''Bearer tok-admin'') [])
     = Next ((sample_request (Some ''Bearer tok-admin'') [])
               \<lparr>user := Some (sample_claims ''Administrator'')\<rparr>)"
proof -
  have p1: "presented (sample_request None []) = None"
    by (simp add: presented_def header_token_def sample_request_def)
  have p2: "presented (sample_request (Some ''Bearer forged'') []) = Some ''forged''"
    by (simp add: presented_def header_token_def sample_request_def)
  have p3: "presented (sample_request (Some ''Bearer tok-editor'') []) = Some ''tok-editor''"
    by (simp add: presented_def header_token_def sample_request_def)
  have p4: "presented (sample_request (Some ''Bearer tok-admin'') []) = Some ''tok-admin''"
    by (simp add: presented_def header_token_def sample_request_def)
  have v2: "jwt_verify sample_env ''forged'' (secret sample_env) 0 = None"
    by (simp add: sample_env_def)
  have v3: "jwt_verify sample_env ''tok-editor'' (secret sample_env) 0
              = Some (sample_claims ''Editor'')"
    by (simp add: sample_env_def)
  have v4: "jwt_verify sample_env ''tok-admin'' (secret sample_env) 0
              = Some (sample_claims ''Administrator'')"
    by (simp add: sample_env_def)
  have r3: "map_of (sample_claims ''Editor'') ''role'' \<noteq> Some (VStr ''Administrator'')"
    by (simp add: sample_claims_def)
  have r4: "map_of (sample_claims ''Administrator'') ''role'' = Some (VStr ''Administrator'')"
    by (simp add: sample_claims_def)
  note a1 = authMiddleware_outcomes [of "sample_request None []" sample_env 0 "''Editor''",
      THEN conjunct1, THEN mp, OF p1]
  note a2 = authMiddleware_outcomes [of "sample_request (Some ''Bearer forged'') []" sample_env 0
      "''Editor''", THEN conjunct2, THEN conjunct1, THEN spec, THEN mp, OF conjI [OF p2 v2]]
  note a3 = authMiddleware_outcomes [of "sample_request (Some ''Bearer tok-editor'') []"
      sample_env 0 "''Administrator''", THEN conjunct2, THEN conjunct2, THEN conjunct1,
      THEN spec, THEN spec, THEN mp, OF conjI [OF p3 conjI [OF v3 conjI [OF refl r3]]]]
  have n4: "\<not> (''Administrator'' = ''Administrator''
      \<and> map_of (sample_claims ''Administrator'') ''role'' \<noteq> Some (VStr ''Administrator''))"
    using r4 by simp
  note a4 = authMiddleware_outcomes [of "sample_request (Some ''Bearer tok-admin'') []"
      sample_env 0 "''Administrator''", THEN conjunct2, THEN conjunct2, THEN conjunct2,
      THEN conjunct1, THEN spec, THEN spec, THEN mp, OF conjI [OF p4 conjI [OF v4 n4]]]
  show ?thesis
    by (intro conjI) (rule a1, rule a2, rule a3, rule a4)
qed

section \<open>The public list\<close>

lemma cast_published:
  assumes "map_of (paths s) ''published'' = Some f" and "ftype f = TBoolean"
  shows "cast_filter s [(''published'', Some (VBool True))]
           = Inr (\<lambda>d. matches_val (VBool True) (map_of d ''published'') \<and> True,
                  [(''published'', VBool True)])"
  using assms by (simp add: cast_cond_def cast_path_def cast_val_def)

lemma content_published:
  assumes "M \<in> set content_models"
  shows "\<exists>f. map_of (paths (schema M)) ''published'' = Some f \<and> ftype f = TBoolean
           \<and> dflt f = Some (VBool False)"
  using assms
  by (auto simp: content_models_def Project_def Experience_def Expertise_def EngineeringLog_def
      projectSchema_def experienceSchema_def expertiseSchema_def engineeringLogSchema_def plain_def)

lemma find_published:
  assumes "M \<in> set content_models" and "fault c = None"
  shows "find_docs (schema M) c [(''published'', Some (VBool True))]
           = Inr (filter published (docs c))"
proof -
  obtain f where f: "map_of (paths (schema M)) ''published'' = Some f" "ftype f = TBoolean"
    using content_published [OF assms(1)] by blast
  have "filter (\<lambda>d. matches_val (VBool True) (map_of d ''published'') \<and> True) (docs c)
          = filter published (docs c)"
    by (rule filter_cong) (simp_all add: matches_val_def published_def)
  then show ?thesis
    unfolding find_docs_def cast_published [OF f] using assms(2) by simp
qed

lemma sort_desc_sorted:
  "sorted_wrt (\<lambda>a b. date_key k b \<le> date_key k a) (sort_desc k ds)"
  unfolding sort_desc_def sorted_wrt_rev
  using sorted_sort_key [of "date_key k" ds] by (simp add: sorted_map)

lemma mset_sort_desc: "mset (sort_desc k ds) = mset ds"
  by (simp add: sort_desc_def)

lemma getPublic_items:
  assumes "M \<in> set content_models" and "fault (db (modelName M)) = None"
  shows "getPublic M db
           = Response 200 (Arr (sort_desc ''createdAt'' (filter published (docs (db (modelName M))))))"
  using assms by (simp add: getPublic_def find_published)

text \<open>
  C2. For each of the four content resources and every state of its collection (the store
  being reachable), the public list answers 200 with exactly the records whose published
  flag is true (the same records with the same multiplicities), latest \<open>createdAt\<close>
  first, whatever else the collection holds.
\<close>

theorem getPublic_published_sorted:
  assumes "M \<in> set content_models" and "fault (db (modelName M)) = None"
  shows "\<exists>items. getPublic M db = Response 200 (Arr items)
     \<and> mset items = mset (filter published (docs (db (modelName M))))
     \<and> sorted_wrt (\<lambda>a b. date_key ''createdAt'' b \<le> date_key ''createdAt'' a) items"
  using assms by (simp add: getPublic_items sort_desc_sorted mset_sort_desc)

lemma sample_projects:
  "docs (sample_db (modelName Project)) = [sample_project 1 True 10, sample_project 2 False 20, sample_project 3 True 30]"
  "fault (sample_db (modelName Project)) = None"
  by (simp_all add: sample_db_def Project_def)

lemma sample_published:
  "published (sample_project i b c) = b"
  by (simp add: published_def sample_project_def)

lemma sample_created: "date_key ''createdAt'' (sample_project i b c) = Some c"
  by (simp add: date_key_def sample_project_def)

theorem getPublic_published_sorted_witness:
  "Project \<in> set content_models \<and> fault (sample_db (modelName Project)) = None
   \<and> (\<exists>items. getPublic Project sample_db = Response 200 (Arr items)
        \<and> mset items = mset (filter published (docs (sample_db (modelName Project))))
        \<and> sorted_wrt (\<lambda>a b. date_key ''createdAt'' b \<le> date_key ''createdAt'' a) items)
   \<and> getPublic Project sample_db
       = Response 200 (Arr [sample_project 3 True 30, sample_project 1 True 10])"
proof -
  have m: "Project \<in> set content_models" by (simp add: content_models_def)
  have l: "getPublic Project sample_db
       = Response 200 (Arr [sample_project 3 True 30, sample_project 1 True 10])"
    by (simp add: getPublic_items [of Project sample_db, OF m sample_projects(2)] sample_projects(1) sample_published
        sort_desc_def sample_created)
  show ?thesis
    using getPublic_published_sorted [of Project sample_db, OF m sample_projects(2)] m sample_projects(2) l by blast
qed

section \<open>Reading a singleton or a section that is not there\<close>

lemma find_main:
  assumes "M \<in> set singleton_models" and "fault c = None"
  shows "find_docs (schema M) c [(''singleton'', Some (VStr ''main''))]
           = Inr (filter is_main (docs c))"
proof -
  have cf: "cast_filter (schema M) [(''singleton'', Some (VStr ''main''))]
          = Inr (\<lambda>d. matches_val (VStr ''main'') (map_of d ''singleton'') \<and> True,
                 [(''singleton'', VStr ''main'')])"
    using assms(1)
    by (auto simp: singleton_models_def PersonalInfo_def Skills_def personalInfoSchema_def
        skillsSchema_def plain_def cast_cond_def cast_path_def cast_val_def setters_def)
  have "filter (\<lambda>d. matches_val (VStr ''main'') (map_of d ''singleton'') \<and> True) (docs c)
          = filter is_main (docs c)"
    by (rule filter_cong) (simp_all add: matches_val_def is_main_def)
  then show ?thesis
    unfolding find_docs_def cf using assms(2) by simp
qed

lemma cast_section:
  "cast_filter singleSectionSchema [(''sectionId'', Some (VStr k))]
     = Inr (\<lambda>d. matches_val (VStr k) (map_of d ''sectionId'') \<and> True, [(''sectionId'', VStr k)])"
  by (simp add: singleSectionSchema_def plain_def cast_cond_def cast_path_def cast_val_def setters_def)

lemma find_section:
  assumes "fault c = None"
  shows "find_docs singleSectionSchema c [(''sectionId'', Some (VStr k))]
           = Inr (filter (has_key k) (docs c))"
proof -
  have "filter (\<lambda>d. matches_val (VStr k) (map_of d ''sectionId'') \<and> True) (docs c)
          = filter (has_key k) (docs c)"
    by (rule filter_cong) (simp_all add: matches_val_def has_key_def)
  then show ?thesis
    unfolding find_docs_def cast_section using assms by simp
qed

lemma filter_none: "(\<forall>x\<in>set xs. \<not> P x) \<Longrightarrow> filter P xs = []"
  by (induction xs) auto

lemma getSingleton_status: "status (getSingleton M db) = 200 \<or> status (getSingleton M db) = 500"
  by (simp add: getSingleton_def message_def split: sum.splits)

lemma sections_get_status: "status (sections_get db k) = 200 \<or> status (sections_get db k) = 500"
  by (simp add: sections_get_def message_def split: sum.splits)

text \<open>The names the program mounts its routers at are in lower case.\<close>

lemma lower_names:
  "toLowerCase ''api'' = ''api''"
  "toLowerCase ''personal-info'' = ''personal-info''"
  "toLowerCase ''skills'' = ''skills''"
  "toLowerCase ''sections'' = ''sections''"
  "toLowerCase ''projects'' = ''projects''"
  "toLowerCase ''experience'' = ''experience''"
  "toLowerCase ''expertise'' = ''expertise''"
  "toLowerCase ''logs'' = ''logs''"
  by (simp_all add: toLowerCase_def lower_char_def)

lemma app_singleton_get:
  "app e t db GET [''api'', ''personal-info''] req = Some (getSingleton PersonalInfo db, db)"
  "app e t db GET [''api'', ''skills''] req = Some (getSingleton Skills db, db)"
  "app e t db GET [''api'', ''sections'', k] req = Some (sections_get db k, db)"
  by (simp_all add: app_def lower_names mounts_def singletonRouter_def singleSectionRouter_def
      run_route_def)

text \<open>
  C5. With the store reachable and no record carrying the marker \<open>main\<close> in the
  collection of a singleton resource (personal-info, skills), the get operation answers 200
  with the empty object; so does the get of a section key that no record has. Neither
  operation ever answers 404. These are the handlers the GET routes run, ungated.
\<close>

theorem get_missing_is_empty_object:
  "(M \<in> set singleton_models \<and> fault (db (modelName M)) = None
      \<and> (\<forall>d\<in>set (docs (db (modelName M))). \<not> is_main d)
      \<longrightarrow> getSingleton M db = Response 200 (Obj []))
   \<and> (fault (db (modelName SingleSection)) = None
      \<and> (\<forall>d\<in>set (docs (db (modelName SingleSection))). \<not> has_key k d)
      \<longrightarrow> sections_get db k = Response 200 (Obj []))
   \<and> status (getSingleton M db) \<noteq> 404 \<and> status (sections_get db k) \<noteq> 404
   \<and> app e t db GET [''api'', ''personal-info''] req = Some (getSingleton PersonalInfo db, db)
   \<and> app e t db GET [''api'', ''skills''] req = Some (getSingleton Skills db, db)
   \<and> app e t db GET [''api'', ''sections'', k] req = Some (sections_get db k, db)"
proof -
  have a: "M \<in> set singleton_models \<and> fault (db (modelName M)) = None
      \<and> (\<forall>d\<in>set (docs (db (modelName M))). \<not> is_main d)
      \<longrightarrow> getSingleton M db = Response 200 (Obj [])"
    by (simp add: getSingleton_def findOne_def find_main filter_none)
  have b: "fault (db (modelName SingleSection)) = None
      \<and> (\<forall>d\<in>set (docs (db (modelName SingleSection))). \<not> has_key k d)
      \<longrightarrow> sections_get db k = Response 200 (Obj [])"
    by (simp add: sections_get_def findOne_def find_section filter_none)
  have c: "status (getSingleton M db) \<noteq> 404" using getSingleton_status [of M db] by auto
  have d: "status (sections_get db k) \<noteq> 404" using sections_get_status [of db k] by auto
  show ?thesis
    using a b c d app_singleton_get by blast
qed

theorem get_missing_is_empty_object_witness:
  "PersonalInfo \<in> set singleton_models \<and> fault (empty_db (modelName PersonalInfo)) = None
   \<and> docs (empty_db (modelName PersonalInfo)) = []
   \<and> getSingleton PersonalInfo empty_db = Response 200 (Obj [])
   \<and> fault (sample_db (modelName SingleSection)) = None
   \<and> map (\<lambda>d. map_of d ''sectionId'') (docs (sample_db (modelName SingleSection)))
       = [Some (VStr ''resume''), Some (VStr ''contact'')]
   \<and> sections_get sample_db ''unknown-key'' = Response 200 (Obj [])"
proof -
  have e: "docs (empty_db (modelName PersonalInfo)) = []"
    by (simp add: empty_db_def)
  have s: "map (\<lambda>d. map_of d ''sectionId'') (docs (sample_db (modelName SingleSection)))
       = [Some (VStr ''resume''), Some (VStr ''contact'')]"
    by (simp add: sample_db_def empty_db_def SingleSection_def sample_section_def)
  have h1: "PersonalInfo \<in> set singleton_models \<and> fault (empty_db (modelName PersonalInfo)) = None
     \<and> (\<forall>d\<in>set (docs (empty_db (modelName PersonalInfo))). \<not> is_main d)"
    by (simp add: singleton_models_def empty_db_def)
  have h2: "fault (sample_db (modelName SingleSection)) = None
     \<and> (\<forall>d\<in>set (docs (sample_db (modelName SingleSection))). \<not> has_key ''unknown-key'' d)"
    by (simp add: sample_db_def empty_db_def SingleSection_def has_key_def sample_section_def)
  note a1 = get_missing_is_empty_object [of PersonalInfo empty_db, THEN conjunct1, THEN mp, OF h1]
  note a2 = get_missing_is_empty_object [of PersonalInfo sample_db "''unknown-key''",
      THEN conjunct2, THEN conjunct1, THEN mp, OF h2]
  show ?thesis
    by (intro conjI) (rule h1 [THEN conjunct1], rule h1 [THEN conjunct2, THEN conjunct1],
        rule e, rule a1, rule h2 [THEN conjunct1], rule s, rule a2)
qed

section \<open>The wiring of the content routes\<close>

lemma crud_mount:
  assumes "(R, M) \<in> set crud_mounts"
  shows "map_of (mounts e) R = Some (defineCrudRoutes M)"
proof -
  from assms have "(R = ''projects'' \<and> M = Project) \<or> (R = ''experience'' \<and> M = Experience)
      \<or> (R = ''expertise'' \<and> M = Expertise) \<or> (R = ''logs'' \<and> M = EngineeringLog)"
    unfolding crud_mounts_def by simp
  then show ?thesis
    by (elim disjE conjE) (simp_all add: mounts_def)
qed

lemma crud_lower:
  assumes "(R, M) \<in> set crud_mounts"
  shows "toLowerCase R = R"
proof -
  from assms have "R = ''projects'' \<or> R = ''experience'' \<or> R = ''expertise'' \<or> R = ''logs''"
    unfolding crud_mounts_def by auto
  then show ?thesis
    by (elim disjE) (simp_all add: lower_names)
qed

lemma app_crud:
  assumes "(R, M) \<in> set crud_mounts"
  shows "app e t db m (''api'' # R # rest) req = dispatch e (defineCrudRoutes M) t db m rest req"
  by (simp add: app_def lower_names(1) crud_lower [OF assms] crud_mount [OF assms])

lemma gate_absent:
  "authorization req = None \<Longrightarrow>
     authMiddleware e now r req = Respond (message 401 ''Access denied. No token provided.'')"
  by (simp add: authMiddleware_def header_token_def)

lemma gate_forbidden:
  assumes "presented req = Some tok" and "jwt_verify e tok (secret e) now = Some d"
    and "map_of d ''role'' \<noteq> Some (VStr ''Administrator'')"
  shows "authMiddleware e now ''Administrator'' req
           = Respond (message 403 ''Forbidden: Administrator access required.'')"
  using assms
  by (auto simp: presented_def authMiddleware_def split: option.splits if_splits)

text \<open>
  C8. For each content resource \<open>R\<close> with its model \<open>M\<close>: \<open>GET /api/R\<close> runs the public
  list with no gate; \<open>GET /api/R/all\<close>, \<open>POST /api/R\<close> and \<open>PUT /api/R/:id\<close> run their
  handlers behind the gate for any role; \<open>DELETE /api/R/:id\<close> runs behind the gate for
  Administrator. So a \<open>POST /api/R\<close> without an Authorization header is answered 401
  and a \<open>DELETE /api/R/:id\<close> with a valid token of another role is answered 403, the
  database untouched in both.
\<close>

theorem crud_route_gates:
  assumes "(R, M) \<in> set crud_mounts"
  shows "app e t db GET [''api'', R] req = Some (getPublic M db, db)
   \<and> app e t db GET [''api'', R, ''all''] req
       = Some (case authMiddleware e (clock t) ''Editor'' req of
                 Respond res \<Rightarrow> (res, db) | Next req' \<Rightarrow> (getAllAdmin M db, db))
   \<and> app e t db POST [''api'', R] req
       = Some (case authMiddleware e (clock t) ''Editor'' req of
                 Respond res \<Rightarrow> (res, db) | Next req' \<Rightarrow> create M t db req')
   \<and> app e t db PUT [''api'', R, i] req
       = Some (case authMiddleware e (clock t) ''Editor'' req of
                 Respond res \<Rightarrow> (res, db) | Next req' \<Rightarrow> update M t db i req')
   \<and> app e t db DELETE [''api'', R, i] req
       = Some (case authMiddleware e (clock t) ''Administrator'' req of
                 Respond res \<Rightarrow> (res, db) | Next req' \<Rightarrow> delete M db i)
   \<and> (authorization req = None \<longrightarrow>
        app e t db POST [''api'', R] req
          = Some (message 401 ''Access denied. No token provided.'', db))
   \<and> (\<forall>tok d. presented req = Some tok \<and> jwt_verify e tok (secret e) (clock t) = Some d
          \<and> map_of d ''role'' \<noteq> Some (VStr ''Administrator'') \<longrightarrow>
        app e t db DELETE [''api'', R, i] req
          = Some (message 403 ''Forbidden: Administrator access required.'', db))"
proof -
  have g: "app e t db GET [''api'', R] req = Some (getPublic M db, db)"
    by (simp add: app_crud [OF assms] defineCrudRoutes_def run_route_def split: outcome.splits)
  have a: "app e t db GET [''api'', R, ''all''] req
       = Some (case authMiddleware e (clock t) ''Editor'' req of
                 Respond res \<Rightarrow> (res, db) | Next req' \<Rightarrow> (getAllAdmin M db, db))"
    by (simp add: app_crud [OF assms] defineCrudRoutes_def run_route_def split: outcome.splits)
  have p: "app e t db POST [''api'', R] req
       = Some (case authMiddleware e (clock t) ''Editor'' req of
                 Respond res \<Rightarrow> (res, db) | Next req' \<Rightarrow> create M t db req')"
    by (simp add: app_crud [OF assms] defineCrudRoutes_def run_route_def split: outcome.splits)
  have u: "app e t db PUT [''api'', R, i] req
       = Some (case authMiddleware e (clock t) ''Editor'' req of
                 Respond res \<Rightarrow> (res, db) | Next req' \<Rightarrow> update M t db i req')"
    by (simp add: app_crud [OF assms] defineCrudRoutes_def run_route_def split: outcome.splits)
  have d: "app e t db DELETE [''api'', R, i] req
       = Some (case authMiddleware e (clock t) ''Administrator'' req of
                 Respond res \<Rightarrow> (res, db) | Next req' \<Rightarrow> delete M db i)"
    by (simp add: app_crud [OF assms] defineCrudRoutes_def run_route_def split: outcome.splits)
  have p401: "authorization req = None \<longrightarrow>
        app e t db POST [''api'', R] req
          = Some (message 401 ''Access denied. No token provided.'', db)"
    unfolding p by (simp add: gate_absent)
  have d403: "\<forall>tok d. presented req = Some tok \<and> jwt_verify e tok (secret e) (clock t) = Some d
          \<and> map_of d ''role'' \<noteq> Some (VStr ''Administrator'') \<longrightarrow>
        app e t db DELETE [''api'', R, i] req
          = Some (message 403 ''Forbidden: Administrator access required.'', db)"
    unfolding d by (auto simp: gate_forbidden)
  show ?thesis
    by (intro conjI) (rule g, rule a, rule p, rule u, rule d, rule p401, rule d403)
qed

theorem crud_route_gates_witness:
  "(''projects'', Project) \<in> set crud_mounts
   \<and> authorization (sample_request None [(''title'', VStr ''x'')]) = None
   \<and> app sample_env sample_tick sample_db POST [''api'', ''projects'']
        (sample_request None [(''title'', VStr ''x'')])
       = Some (message 401 ''Access denied. No token provided.'', sample_db)
   \<and> presented (sample_request (Some ''Bearer tok-editor'') []) = Some ''tok-editor''
   \<and> jwt_verify sample_env ''tok-editor'' (secret sample_env) (clock sample_tick)
       = Some (sample_claims ''Editor'')
   \<and> map_of (sample_claims ''Editor'') ''role'' \<noteq> Some (VStr ''Administrator'')
   \<and> app sample_env sample_tick sample_db DELETE [''api'', ''projects'', oid1]
        (sample_request (Some ''Bearer tok-editor'') [])
       = Some (message 403 ''Forbidden: Administrator access required.'', sample_db)"
proof -
  have m: "(''projects'', Project) \<in> set crud_mounts" by (simp add: crud_mounts_def)
  have h1: "authorization (sample_request None [(''title'', VStr ''x'')]) = None"
    by (simp add: sample_request_def)
  have h2a: "presented (sample_request (Some ''Bearer tok-editor'') []) = Some ''tok-editor''"
    by (simp add: presented_def header_token_def sample_request_def)
  have h2b: "jwt_verify sample_env ''tok-editor'' (secret sample_env) (clock sample_tick)
       = Some (sample_claims ''Editor'')"
    by (simp add: sample_env_def)
  have h2c: "map_of (sample_claims ''Editor'') ''role'' \<noteq> Some (VStr ''Administrator'')"
    by (simp add: sample_claims_def)
  note t = crud_route_gates [OF m, of sample_env sample_tick sample_db _ oid1]
  note a1 = t [of "sample_request None [(''title'', VStr ''x'')]",
      THEN conjunct2, THEN conjunct2, THEN conjunct2, THEN conjunct2, THEN conjunct2,
      THEN conjunct1, THEN mp, OF h1]
  note a2 = t [of "sample_request (Some ''Bearer tok-editor'') []",
      THEN conjunct2, THEN conjunct2, THEN conjunct2, THEN conjunct2, THEN conjunct2,
      THEN conjunct2, THEN spec, THEN spec, THEN mp, OF conjI [OF h2a conjI [OF h2b h2c]]]
  show ?thesis
    by (intro conjI) (rule m, rule h1, rule a1, rule h2a, rule h2b, rule h2c, rule a2)
qed

section \<open>Login\<close>



lemma cast_email:
  "cast_filter userSchema [(''email'', Some (VStr m))]
     = Inr (\<lambda>d. matches_val (VStr (toLowerCase (js_trim m))) (map_of d ''email'') \<and> True,
            [(''email'', VStr (toLowerCase (js_trim m)))])"
  by (simp add: userSchema_def plain_def cast_cond_def cast_path_def cast_val_def setters_def)

text \<open>
  The lookup by email finds a user record: the one whose stored email is the request's,
  trimmed and in lower case, when no other record has that email (the unique index).
\<close>

lemma findOne_email:
  assumes "fault c = None" and "u \<in> set (docs c)"
    and "map_of u ''email'' = Some (VStr (toLowerCase (js_trim m)))"
    and "\<forall>x\<in>set (docs c). map_of x ''email'' = map_of u ''email'' \<longrightarrow> x = u"
  shows "findOne userSchema c [(''email'', Some (VStr m))] = Inr (Some u)"
proof -
  let ?P = "\<lambda>d. matches_val (VStr (toLowerCase (js_trim m))) (map_of d ''email'') \<and> True"
  have Pu: "?P u" using assms(3) by (simp add: matches_val_def)
  have "filter ?P (docs c) \<noteq> []"
    using assms(2) Pu by (auto simp: filter_empty_conv)
  then obtain x xs where x: "filter ?P (docs c) = x # xs"
    by (cases "filter ?P (docs c)") auto
  then have "x \<in> set (filter ?P (docs c))" by simp
  then have "x \<in> set (docs c)" and "?P x" by auto
  then have "x = u" using assms(3,4) by (auto simp: matches_val_def)
  then show ?thesis
    unfolding findOne_def find_docs_def cast_email using assms(1) x by simp
qed



text \<open>
  A request that names no email finds no user, every stored user having one: the lookup
  is for an email that is null.
\<close>

lemma login_no_email:
  assumes "map_of (body req) ''email'' = None" and "fault (db (modelName User)) = None"
    and "\<forall>x\<in>set (docs (db (modelName User))). \<exists>m. map_of x ''email'' = Some (VStr m)"
  shows "login e t db req = message 401 ''Invalid credentials or inactive user.''"
proof -
  have "filter (\<lambda>d. (map_of d ''email'' = None \<or> map_of d ''email'' = Some VNull) \<and> True)
          (docs (db (modelName User))) = []"
    using assms(3) by (intro filter_none) auto
  then show ?thesis
    using assms(1,2)
    by (simp add: login_def findOne_def find_docs_def cast_cond_def cast_path_def userSchema_def
        plain_def cast_val_def matches_val_def)
qed







section \<open>Writes: what an update changes\<close>

lemma split_first_SomeD:
  "split_first t xs = Some (pre, d, post) \<Longrightarrow>
     xs = pre @ d # post \<and> t d \<and> (\<forall>x\<in>set pre. \<not> t x)"
  by (induction xs arbitrary: pre) (auto split: if_splits option.splits)


lemma split_first_None: "(split_first t xs = None) = (\<forall>x\<in>set xs. \<not> t x)"
  by (induction xs) (auto split: option.splits)

lemma map_of_set_fields_other:
  "k \<notin> fst ` set kvs \<Longrightarrow> map_of (set_fields kvs d) k = map_of d k"
  by (induction kvs arbitrary: d) (auto simp: update_conv')

lemma map_of_set_fields_in:
  "distinct (map fst kvs) \<Longrightarrow> (k, v) \<in> set kvs \<Longrightarrow> map_of (set_fields kvs d) k = Some v"
proof (induction kvs arbitrary: d)
  case Nil
  then show ?case by simp
next
  case (Cons a kvs)
  obtain k' v' where a: "a = (k', v')" by (cases a)
  show ?case
  proof (cases "(k, v) = a")
    case True
    then have "k \<notin> fst ` set kvs" using Cons.prems(1) a by auto
    then show ?thesis using True a by (simp add: map_of_set_fields_other update_conv')
  next
    case False
    then show ?thesis using Cons a by auto
  qed
qed

lemma cast_fields_sound:
  "cast_fields ps upd = Inr sets \<Longrightarrow> (k, v) \<in> set sets \<Longrightarrow>
     \<exists>f u. (k, f) \<in> set ps \<and> map_of upd k = Some u \<and> cast_val f u = Some v"
proof (induction ps arbitrary: sets)
  case Nil
  then show ?case by simp
next
  case (Cons a ps)
  obtain p f where a: "a = (p, f)" by (cases a)
  show ?case
  proof (cases "map_of upd p")
    case None
    then have "cast_fields ps upd = Inr sets" using Cons.prems(1) a by simp
    from Cons.IH [OF this Cons.prems(2)] show ?thesis by auto
  next
    case (Some u)
    then obtain c rest where c: "cast_val f u = Some c" "cast_fields ps upd = Inr rest"
        "sets = (p, c) # rest"
      using Cons.prems(1) a by (auto split: option.splits sum.splits)
    show ?thesis
    proof (cases "(k, v) = (p, c)")
      case True
      then show ?thesis using Some c(1) a by auto
    next
      case False
      then have "(k, v) \<in> set rest" using Cons.prems(2) c(3) by auto
      from Cons.IH [OF c(2) this] show ?thesis by auto
    qed
  qed
qed

lemma cast_fields_keys:
  assumes "cast_fields ps upd = Inr sets"
  shows "fst ` set sets \<subseteq> fst ` set ps \<inter> dom (map_of upd)"
proof
  fix k assume "k \<in> fst ` set sets"
  then obtain v where "(k, v) \<in> set sets" by auto
  from cast_fields_sound [OF assms this] obtain f u
    where "(k, f) \<in> set ps" "map_of upd k = Some u" by blast
  then show "k \<in> fst ` set ps \<inter> dom (map_of upd)" by force
qed

lemma cast_fields_distinct:
  "distinct (map fst ps) \<Longrightarrow> cast_fields ps upd = Inr sets \<Longrightarrow> distinct (map fst sets)"
proof (induction ps arbitrary: sets)
  case Nil
  then show ?case by simp
next
  case (Cons a ps)
  obtain p f where a: "a = (p, f)" by (cases a)
  show ?case
  proof (cases "map_of upd p")
    case None
    then show ?thesis using Cons a by simp
  next
    case (Some u)
    then obtain c rest where c: "cast_val f u = Some c" "cast_fields ps upd = Inr rest"
        "sets = (p, c) # rest"
      using Cons.prems(2) a by (auto split: option.splits sum.splits)
    have "p \<notin> fst ` set rest"
      using cast_fields_keys [OF c(2)] Cons.prems(1) a by auto
    then show ?thesis using Cons c a by simp
  qed
qed

lemma cast_fields_complete:
  "cast_fields ps upd = Inr sets \<Longrightarrow> (k, f) \<in> set ps \<Longrightarrow> map_of upd k = Some u \<Longrightarrow>
     \<exists>v. cast_val f u = Some v \<and> (k, v) \<in> set sets"
  by (induction ps arbitrary: sets) (auto split: option.splits sum.splits)

lemma cast_fields_fails:
  "(k, f) \<in> set ps \<Longrightarrow> map_of upd k = Some u \<Longrightarrow> cast_val f u = None \<Longrightarrow>
     \<exists>err. cast_fields ps upd = Inl err"
  by (induction ps) (auto split: option.splits sum.splits)








section \<open>The generic update\<close>










section \<open>The user update\<close>

lemma update_where_None_cases:
  assumes "update_where s now c t sets None = Inr (r, c')"
  shows "(r = None \<and> c' = c)
     \<or> (\<exists>pre d post. docs c = pre @ d # post \<and> t d \<and> (\<forall>x\<in>set pre. \<not> t x)
           \<and> r = Some (modify s now sets d)
           \<and> c' = c\<lparr>docs := pre @ modify s now sets d # post\<rparr>)"
proof (cases "split_first t (docs c)")
  case None
  then show ?thesis
    using assms by (auto simp: update_where_def split: option.splits)
next
  case (Some a)
  obtain pre d post where a: "a = (pre, d, post)" by (cases a)
  have "docs c = pre @ d # post \<and> t d \<and> (\<forall>x\<in>set pre. \<not> t x)"
    using split_first_SomeD [of t "docs c" pre d post] Some a by simp
  moreover have "r = Some (modify s now sets d) \<and> c' = c\<lparr>docs := pre @ modify s now sets d # post\<rparr>"
    using assms Some a by (auto simp: update_where_def Let_def split: option.splits)
  ultimately show ?thesis by blast
qed

lemma findByIdAndUpdate_cases:
  assumes "findByIdAndUpdate s now c ident upd = Inr (r, c')"
  shows "\<exists>i sets. castObjectId ident = Some i \<and> cast_fields (paths s) upd = Inr sets
     \<and> ((r = None \<and> c' = c)
        \<or> (\<exists>pre d post. docs c = pre @ d # post \<and> has_id i d \<and> (\<forall>x\<in>set pre. \<not> has_id i x)
              \<and> r = Some (modify s now sets d)
              \<and> c' = c\<lparr>docs := pre @ modify s now sets d # post\<rparr>))"
proof -
  obtain i where i: "castObjectId ident = Some i"
    using assms by (cases "castObjectId ident") (auto simp: findByIdAndUpdate_def)
  obtain sets where sets: "cast_fields (paths s) upd = Inr sets"
    using assms i by (cases "cast_fields (paths s) upd") (auto simp: findByIdAndUpdate_def)
  have "update_where s now c (has_id i) sets None = Inr (r, c')"
    using assms i sets by (simp add: findByIdAndUpdate_def)
  from update_where_None_cases [OF this] show ?thesis using i sets by blast
qed

text \<open>A field the update does not name is the same in every record afterwards.\<close>

lemma findByIdAndUpdate_frame:
  assumes "findByIdAndUpdate s now c ident upd = Inr (r, c')"
    and "map_of upd k = None" and "k \<noteq> ''updatedAt''"
  shows "map (\<lambda>d. map_of d k) (docs c') = map (\<lambda>d. map_of d k) (docs c)"
proof -
  obtain i sets where sets: "cast_fields (paths s) upd = Inr sets"
    and cases: "(r = None \<and> c' = c)
        \<or> (\<exists>pre d post. docs c = pre @ d # post \<and> has_id i d \<and> (\<forall>x\<in>set pre. \<not> has_id i x)
              \<and> r = Some (modify s now sets d)
              \<and> c' = c\<lparr>docs := pre @ modify s now sets d # post\<rparr>)"
    using findByIdAndUpdate_cases [OF assms(1)] by blast
  have "k \<notin> fst ` set sets"
    using cast_fields_keys [OF sets] assms(2) by (auto simp: dom_def)
  then have "k \<notin> fst ` set (sets @ (if timestamps s then [(''updatedAt'', VDate now)] else []))"
    using assms(3) by auto
  then have same: "map_of (modify s now sets d) k = map_of d k" for d
    unfolding modify_def by (rule map_of_set_fields_other)
  from cases show ?thesis
    by (auto simp: same)
qed

lemma not_in_subset: "A \<subseteq> B \<Longrightarrow> x \<notin> B \<Longrightarrow> x \<notin> A"
  by auto

lemma object_keys: "fst ` set (object kvs) \<subseteq> fst ` set kvs"
  by (induction kvs rule: object.induct) auto

lemma object_append: "object (a @ b) = object a @ object b"
  by (induction a rule: object.induct) auto

lemma when_truthy_keys: "fst ` set (when_truthy k v) \<subseteq> {k}"
  by (auto simp: when_truthy_def)

lemma profile_no_hash: "map_of (object (profile_fields b)) ''passwordHash'' = None"
proof -
  have "fst ` set (profile_fields b) \<subseteq> {''name'', ''email'', ''role'', ''status''}"
    unfolding profile_fields_def when_truthy_def by (auto split: if_splits)
  then have "fst ` set (object (profile_fields b)) \<subseteq> {''name'', ''email'', ''role'', ''status''}"
    using object_keys [of "profile_fields b"] by (rule order_trans [rotated])
  moreover have "''passwordHash'' \<notin> {''name'', ''email'', ''role'', ''status''}" by simp
  ultimately have "''passwordHash'' \<notin> fst ` set (object (profile_fields b))"
    by (rule not_in_subset)
  then show ?thesis by (simp add: map_of_eq_None_iff)
qed

lemma profile_with_hash:
  "map_of (object (profile_fields b @ [(''passwordHash'', Some (VStr h))])) ''passwordHash''
     = Some (VStr h)"
  using profile_no_hash [of b] by (simp add: object_append map_add_def)

text \<open>The handler, by what it does about the password.\<close>

lemma users_put_unfold:
  "users_put e t db ident req =
     (case (if truthy (map_of (body req) ''password'') \<and> has_length (map_of (body req) ''password'')
            then (case hashPassword e (genSalt t) (map_of (body req) ''password'') of
                    Inl err \<Rightarrow> Inl err
                  | Inr h \<Rightarrow> Inr (profile_fields (body req) @ [(''passwordHash'', Some (VStr h))]))
            else Inr (profile_fields (body req))) of
        Inl err \<Rightarrow> (message 400 (err_message err), db)
      | Inr updateData' \<Rightarrow>
          (case findByIdAndUpdate userSchema (clock t) (db (modelName User)) ident
                  (object updateData') of
             Inl err \<Rightarrow> (message 400 (err_message err), db)
           | Inr (None, c') \<Rightarrow> (message 404 ''User not found'', db)
           | Inr (Some updated, c') \<Rightarrow>
               (Response 200 (Obj (AList.delete ''passwordHash'' updated)),
                db(modelName User := c'))))"
  unfolding users_put_def profile_fields_def Let_def by (rule refl)

lemma users_put_keeps_hash:
  assumes "\<not> (truthy (map_of (body req) ''password'') \<and> has_length (map_of (body req) ''password''))"
  shows "map (\<lambda>d. map_of d ''passwordHash'') (docs (snd (users_put e t db ident req) (modelName User)))
           = map (\<lambda>d. map_of d ''passwordHash'') (docs (db (modelName User)))"
proof -
  let ?r = "findByIdAndUpdate userSchema (clock t) (db (modelName User)) ident
              (object (profile_fields (body req)))"
  have u: "users_put e t db ident req =
     (case ?r of
        Inl err \<Rightarrow> (message 400 (err_message err), db)
      | Inr (None, c') \<Rightarrow> (message 404 ''User not found'', db)
      | Inr (Some updated, c') \<Rightarrow>
          (Response 200 (Obj (AList.delete ''passwordHash'' updated)), db(modelName User := c')))"
    using assms unfolding users_put_unfold by auto
  show ?thesis
  proof (cases ?r)
    case (Inl err)
    then show ?thesis unfolding u by simp
  next
    case (Inr a)
    obtain r c' where a: "a = (r, c')" by (cases a)
    have fr: "map (\<lambda>d. map_of d ''passwordHash'') (docs c')
                = map (\<lambda>d. map_of d ''passwordHash'') (docs (db (modelName User)))"
      using findByIdAndUpdate_frame [OF Inr [unfolded a] profile_no_hash] by simp
    show ?thesis
      unfolding u Inr a using fr by (cases r) simp_all
  qed
qed

lemma hash_field:
  "(''passwordHash'', (plain TString)\<lparr>required := True\<rparr>) \<in> set (paths userSchema)"
  "cast_val ((plain TString)\<lparr>required := True\<rparr>) (VStr h) = Some (VStr h)"
  "distinct (map fst (paths userSchema))" "\<not> timestamps userSchema"
  by (simp_all add: userSchema_def cast_val_def plain_def setters_def)

lemma users_put_sets_hash:
  assumes "map_of (body req) ''password'' = Some (VStr p)" and "p \<noteq> []"
    and "status (fst (users_put e t db ident req)) = 200"
  shows "\<exists>i pre d post d'. castObjectId ident = Some i
     \<and> docs (db (modelName User)) = pre @ d # post \<and> has_id i d \<and> (\<forall>x\<in>set pre. \<not> has_id i x)
     \<and> users_put e t db ident req
         = (Response 200 (Obj (AList.delete ''passwordHash'' d')),
            db(modelName User := (db (modelName User))\<lparr>docs := pre @ d' # post\<rparr>))
     \<and> map_of d' ''passwordHash'' = Some (VStr (bcrypt_hash e p (genSalt t)))"
proof -
  let ?h = "bcrypt_hash e p (genSalt t)"
  let ?upd = "object (profile_fields (body req) @ [(''passwordHash'', Some (VStr ?h))])"
  let ?r = "findByIdAndUpdate userSchema (clock t) (db (modelName User)) ident ?upd"
  have u: "users_put e t db ident req =
     (case ?r of
        Inl err \<Rightarrow> (message 400 (err_message err), db)
      | Inr (None, c') \<Rightarrow> (message 404 ''User not found'', db)
      | Inr (Some updated, c') \<Rightarrow>
          (Response 200 (Obj (AList.delete ''passwordHash'' updated)), db(modelName User := c')))"
    using assms(1,2) unfolding users_put_unfold by (simp add: has_length_def hashPassword_def)
  obtain updated c' where r: "?r = Inr (Some updated, c')"
    using assms(3) unfolding u
    by (cases ?r) (auto simp: message_def split: option.splits)
  from findByIdAndUpdate_cases [OF r] obtain i sets pre d post
    where i: "castObjectId ident = Some i"
      and sets: "cast_fields (paths userSchema) ?upd = Inr sets"
      and dc: "docs (db (modelName User)) = pre @ d # post" "has_id i d"
        "\<forall>x\<in>set pre. \<not> has_id i x"
      and upd: "updated = modify userSchema (clock t) sets d"
      and c': "c' = (db (modelName User))\<lparr>docs := pre @ modify userSchema (clock t) sets d # post\<rparr>"
    by auto
  obtain v where v: "cast_val ((plain TString)\<lparr>required := True\<rparr>) (VStr ?h) = Some v"
      "(''passwordHash'', v) \<in> set sets"
    using cast_fields_complete [OF sets hash_field(1) profile_with_hash] by blast
  then have "v = VStr ?h" using hash_field(2) [of ?h] by simp
  then have "(''passwordHash'', VStr ?h) \<in> set sets" using v(2) by simp
  moreover have "distinct (map fst sets)"
    by (rule cast_fields_distinct [OF hash_field(3) sets])
  ultimately have hs: "map_of updated ''passwordHash'' = Some (VStr ?h)"
    unfolding upd modify_def using hash_field(4) by (simp add: map_of_set_fields_in)
  have "users_put e t db ident req
         = (Response 200 (Obj (AList.delete ''passwordHash'' updated)),
            db(modelName User := (db (modelName User))\<lparr>docs := pre @ updated # post\<rparr>))"
    unfolding u r using c' upd by simp
  then show ?thesis using i dc hs by blast
qed

lemma users_put_rejected:
  "status (fst (users_put e t db ident req)) \<noteq> 200 \<Longrightarrow> snd (users_put e t db ident req) = db"
  unfolding users_put_unfold
  by (auto split: sum.splits option.splits if_splits prod.splits)

lemma users_put_no_hash:
  "\<exists>x. payload (fst (users_put e t db ident req)) = Obj x \<and> map_of x ''passwordHash'' = None"
  unfolding users_put_unfold
  by (auto simp: message_def delete_conv split: sum.splits option.splits if_splits prod.splits)

text \<open>
  C4, as the code has it. For every \<open>PUT /users/:id\<close> that reaches the handler: when the
  body's password is absent or the empty string, every stored password hash is as before;
  when it is a non-empty string and the request is answered 200, the record with that id
  has as its hash bcrypt's hash of the new password (under the salt drawn), the other
  records being as before; a request that is not answered 200 leaves the database as it
  was; and the response never carries a \<open>passwordHash\<close> field.
\<close>

theorem users_put_password:
  "((map_of (body req) ''password'' = None \<or> map_of (body req) ''password'' = Some (VStr []))
      \<longrightarrow> hashes (snd (users_put e t db ident req) (modelName User)) = hashes (db (modelName User)))
   \<and> (\<forall>p. map_of (body req) ''password'' = Some (VStr p) \<and> p \<noteq> []
          \<and> status (fst (users_put e t db ident req)) = 200 \<longrightarrow>
        (\<exists>i pre d post d'. castObjectId ident = Some i
           \<and> docs (db (modelName User)) = pre @ d # post \<and> has_id i d
           \<and> (\<forall>x\<in>set pre. \<not> has_id i x)
           \<and> users_put e t db ident req
               = (Response 200 (Obj (AList.delete ''passwordHash'' d')),
                  db(modelName User := (db (modelName User))\<lparr>docs := pre @ d' # post\<rparr>))
           \<and> map_of d' ''passwordHash'' = Some (VStr (bcrypt_hash e p (genSalt t)))))
   \<and> (status (fst (users_put e t db ident req)) \<noteq> 200 \<longrightarrow> snd (users_put e t db ident req) = db)
   \<and> (\<exists>x. payload (fst (users_put e t db ident req)) = Obj x \<and> map_of x ''passwordHash'' = None)"
proof (intro conjI allI impI)
  assume "map_of (body req) ''password'' = None \<or> map_of (body req) ''password'' = Some (VStr [])"
  then have "\<not> (truthy (map_of (body req) ''password'') \<and> has_length (map_of (body req) ''password''))"
    by auto
  then show "hashes (snd (users_put e t db ident req) (modelName User)) = hashes (db (modelName User))"
    unfolding hashes_def by (rule users_put_keeps_hash)
next
  fix p
  assume "map_of (body req) ''password'' = Some (VStr p) \<and> p \<noteq> []
          \<and> status (fst (users_put e t db ident req)) = 200"
  then show "\<exists>i pre d post d'. castObjectId ident = Some i
           \<and> docs (db (modelName User)) = pre @ d # post \<and> has_id i d
           \<and> (\<forall>x\<in>set pre. \<not> has_id i x)
           \<and> users_put e t db ident req
               = (Response 200 (Obj (AList.delete ''passwordHash'' d')),
                  db(modelName User := (db (modelName User))\<lparr>docs := pre @ d' # post\<rparr>))
           \<and> map_of d' ''passwordHash'' = Some (VStr (bcrypt_hash e p (genSalt t)))"
    using users_put_sets_hash [of req p e t db ident] by blast
next
  assume "status (fst (users_put e t db ident req)) \<noteq> 200"
  then show "snd (users_put e t db ident req) = db" by (rule users_put_rejected)
next
  show "\<exists>x. payload (fst (users_put e t db ident req)) = Obj x \<and> map_of x ''passwordHash'' = None"
    by (rule users_put_no_hash)
qed

theorem users_put_password_witness:
  "map_of (body (sample_request None [(''name'', VStr ''Ann B'')])) ''password'' = None
   \<and> hashes (snd (users_put sample_env sample_tick sample_db oid1
                 (sample_request None [(''name'', VStr ''Ann B'')])) (modelName User))
       = [Some (VStr ''s0pw1''), Some (VStr ''s0pw2'')]
   \<and> map_of (body (sample_request None [(''password'', VStr ''new'')])) ''password''
       = Some (VStr ''new'')
   \<and> status (fst (users_put sample_env sample_tick sample_db oid1
                 (sample_request None [(''password'', VStr ''new'')]))) = 200
   \<and> (\<exists>d'. fst (users_put sample_env sample_tick sample_db oid1
                  (sample_request None [(''password'', VStr ''new'')]))
              = Response 200 (Obj (AList.delete ''passwordHash'' d'))
          \<and> map_of d' ''passwordHash'' = Some (VStr ''s1new''))
   \<and> hashes (snd (users_put sample_env sample_tick sample_db oid1
                 (sample_request None [(''password'', VStr ''new'')])) (modelName User))
       = [Some (VStr ''s1new''), Some (VStr ''s0pw2'')]"
proof -
  let ?r1 = "sample_request None [(''name'', VStr ''Ann B'')]"
  let ?r2 = "sample_request None [(''password'', VStr ''new'')]"
  have n1: "map_of (body ?r1) ''password'' = None" by (simp add: sample_request_def)
  have n2: "map_of (body ?r2) ''password'' = Some (VStr ''new'')" by (simp add: sample_request_def)
  have st: "status (fst (users_put sample_env sample_tick sample_db oid1 ?r2)) = 200"
    by code_simp
  have h0: "hashes (sample_db (modelName User)) = [Some (VStr ''s0pw1''), Some (VStr ''s0pw2'')]"
    by code_simp
  have h2: "hashes (snd (users_put sample_env sample_tick sample_db oid1 ?r2) (modelName User))
       = [Some (VStr ''s1new''), Some (VStr ''s0pw2'')]"
    by code_simp
  have bh: "bcrypt_hash sample_env ''new'' (genSalt sample_tick) = ''s1new''"
    by (simp add: sample_env_def sample_tick_def)
  note a1 = users_put_password [of ?r1 sample_env sample_tick sample_db oid1,
      THEN conjunct1, THEN mp, OF disjI1 [OF n1], unfolded h0]
  have ne: "''new'' \<noteq> []" by simp
  note a2 = users_put_password [of ?r2 sample_env sample_tick sample_db oid1,
      THEN conjunct2, THEN conjunct1, THEN spec, THEN mp, OF conjI [OF n2 conjI [OF ne st]],
      unfolded bh]
  from a2 obtain i pre d post d' where
      "users_put sample_env sample_tick sample_db oid1 ?r2
         = (Response 200 (Obj (AList.delete ''passwordHash'' d')),
            sample_db(modelName User := (sample_db (modelName User))\<lparr>docs := pre @ d' # post\<rparr>))"
      and "map_of d' ''passwordHash'' = Some (VStr ''s1new'')"
    by blast
  then have ex: "\<exists>d'. fst (users_put sample_env sample_tick sample_db oid1 ?r2)
              = Response 200 (Obj (AList.delete ''passwordHash'' d'))
          \<and> map_of d' ''passwordHash'' = Some (VStr ''s1new'')"
    by auto
  show ?thesis
    by (intro conjI) (rule n1, rule a1, rule n2, rule st, rule ex, rule h2)
qed

text \<open>
  That every request with a non-empty password replaces the stored hash does not hold: an
  administrator's update of the first user with a new password and the email of the second
  user is rejected by the unique index on \<open>email\<close> (400), and the stored hash stays.
\<close>

theorem users_put_password_counterexample:
  "map_option fst
     (app sample_env sample_tick sample_db PUT [''api'', ''users'', oid1]
        (sample_request (Some ''Bearer tok-admin'')
           [(''password'', VStr ''new''), (''email'', VStr ''bob@x.io'')]))
     = Some (message 400 ''E11000 duplicate key error at email'')
   \<and> map_option (\<lambda>r. hashes (snd r (modelName User)))
     (app sample_env sample_tick sample_db PUT [''api'', ''users'', oid1]
        (sample_request (Some ''Bearer tok-admin'')
           [(''password'', VStr ''new''), (''email'', VStr ''bob@x.io'')]))
     = Some [Some (VStr ''s0pw1''), Some (VStr ''s0pw2'')]
   \<and> hashes (sample_db (modelName User)) = [Some (VStr ''s0pw1''), Some (VStr ''s0pw2'')]
   \<and> bcrypt_hash sample_env ''new'' (genSalt sample_tick) = ''s1new''"
  by code_simp

section \<open>Upserts by key\<close>

lemma keyed_test: "(\<lambda>d. matches_val (VStr kv) (map_of d kp)) = keyed kp kv"
  by (auto simp: fun_eq_iff matches_val_def keyed_def)


lemma has_key_keyed: "has_key k = keyed ''sectionId'' k"
  by (auto simp: fun_eq_iff has_key_def keyed_def)

lemma cast_key_filter:
  assumes "map_of (paths s) kp = Some f" and "ftype f = TString"
    and "\<not> trim f" and "\<not> lowercase f"
  shows "cast_filter s [(kp, Some (VStr kv))] = Inr (keyed kp kv, [(kp, VStr kv)])"
  using assms by (simp add: cast_cond_def cast_path_def cast_val_def setters_def keyed_test)

lemma index_val_keyed: "(index_val d kp = VStr kv) = keyed kp kv d"
  by (auto simp: index_val_def keyed_def split: option.splits)

lemma upserted_key:
  assumes "kp \<notin> fst ` set sets" and "kp \<noteq> ''_id''"
  shows "map_of (upserted s now ds sets [(kp, VStr kv)] dfl) kp = Some (VStr kv)"
proof -
  have "map_of (set_fields sets [(kp, VStr kv)]) kp = Some (VStr kv)"
    using assms(1) by (simp add: map_of_set_fields_other)
  then show ?thesis using assms(2) by (simp add: upserted_def Let_def)
qed

lemma map_of_set_fields_dom:
  "distinct (map fst kvs) \<Longrightarrow>
     map_of (set_fields kvs d) k = (case map_of kvs k of None \<Rightarrow> map_of d k | Some v \<Rightarrow> Some v)"
proof (cases "map_of kvs k")
  case None
  then have "k \<notin> fst ` set kvs" by (simp add: map_of_eq_None_iff)
  then show ?thesis using None by (simp add: map_of_set_fields_other)
next
  case (Some v)
  assume "distinct (map fst kvs)"
  moreover have "(k, v) \<in> set kvs" using Some by (rule map_of_SomeD)
  ultimately show ?thesis using Some by (simp add: map_of_set_fields_in)
qed

lemma upserted_set:
  assumes "distinct (map fst sets)" and "(k, v) \<in> set sets" and "k \<noteq> ''_id''"
  shows "map_of (upserted s now ds sets eqs dfl) k = Some v"
proof -
  have "map_of (set_fields sets eqs) k = Some v"
    using assms(1,2) by (rule map_of_set_fields_in)
  then show ?thesis using assms(3) by (simp add: upserted_def Let_def)
qed

text \<open>
  An upsert filtered by a string at a unique key path, with an update that does not name
  that path, on a schema without timestamps: cast the update, reach the store, then modify
  the first record with the key or insert one.
\<close>

lemma keyed_upsert:
  assumes key: "map_of (paths s) kp = Some f" "ftype f = TString" "\<not> trim f" "\<not> lowercase f"
    and uniq: "unique_paths s = [kp]" and nots: "\<not> timestamps s"
    and nid: "kp \<noteq> ''_id''" and upd: "map_of upd kp = None"
  shows "findOneAndUpdate s now c [(kp, Some (VStr kv))] upd dfl =
     (case cast_fields (paths s) upd of
        Inl err \<Rightarrow> Inl err
      | Inr sets \<Rightarrow>
          (case fault c of
             Some m \<Rightarrow> Inl (Unreachable m)
           | None \<Rightarrow>
               (case split_first (keyed kp kv) (docs c) of
                  Some (pre, d, post) \<Rightarrow>
                    Inr (Some (set_fields sets d), c\<lparr>docs := pre @ set_fields sets d # post\<rparr>)
                | None \<Rightarrow>
                    Inr (Some (upserted s now (docs c) sets [(kp, VStr kv)] dfl),
                         c\<lparr>docs := docs c @ [upserted s now (docs c) sets [(kp, VStr kv)] dfl]\<rparr>))))"
proof (cases "cast_fields (paths s) upd")
  case (Inl err)
  then show ?thesis
    by (simp add: findOneAndUpdate_def cast_key_filter [OF key] del: cast_filter.simps)
next
  case (Inr sets)
  have nk: "kp \<notin> fst ` set sets"
    using cast_fields_keys [OF Inr] upd by (auto simp: dom_def)
  show ?thesis
  proof (cases "fault c")
    case (Some m)
    then show ?thesis
      by (simp add: findOneAndUpdate_def cast_key_filter [OF key] Inr update_where_def del: cast_filter.simps)
  next
    case None
    show ?thesis
    proof (cases "split_first (keyed kp kv) (docs c)")
      case (Some a)
      obtain pre d post where a: "a = (pre, d, post)" by (cases a)
      have m: "modify s now sets d = set_fields sets d"
        using nots by (simp add: modify_def)
      have "index_val (set_fields sets d) kp = index_val d kp"
        using nk by (simp add: index_val_def map_of_set_fields_other)
      then have "duplicate_key (filter (\<lambda>p. index_val (set_fields sets d) p \<noteq> index_val d p)
                    (unique_paths s)) (set_fields sets d) (pre @ post) = None"
        by (simp add: uniq duplicate_key_def)
      then show ?thesis
        using None Some a m
        by (simp add: findOneAndUpdate_def cast_key_filter [OF key] Inr update_where_def Let_def
            del: cast_filter.simps)
    next
      case N: None
      let ?d = "upserted s now (docs c) sets [(kp, VStr kv)] dfl"
      have "index_val ?d kp = VStr kv"
        using upserted_key [OF nk nid] by (simp add: index_val_def)
      moreover have "\<forall>x\<in>set (docs c). index_val x kp \<noteq> VStr kv"
        using N by (simp add: split_first_None index_val_keyed)
      ultimately have "duplicate_key (unique_paths s) ?d (docs c) = None"
        by (simp add: uniq duplicate_key_def)
      then show ?thesis
        using None N
        by (simp add: findOneAndUpdate_def cast_key_filter [OF key] Inr update_where_def Let_def
            del: cast_filter.simps)
    qed
  qed
qed

lemma set_fields_keys: "fst ` set (set_fields kvs d) = fst ` set d \<union> fst ` set kvs"
proof (induction kvs arbitrary: d)
  case Nil
  then show ?case by simp
next
  case (Cons a kvs)
  obtain k v where a: "a = (k, v)" by (cases a)
  show ?case
    unfolding a using Cons.IH [of "AList.update k v d"] by (auto simp: dom_update)
qed

section \<open>The section upsert\<close>

lemma section_schema:
  "map_of (paths singleSectionSchema) ''sectionId''
     = Some ((plain TString)\<lparr>required := True, unique := True\<rparr>)"
  "ftype ((plain TString)\<lparr>required := True, unique := True\<rparr>) = TString"
  "\<not> trim ((plain TString)\<lparr>required := True, unique := True\<rparr>)"
  "\<not> lowercase ((plain TString)\<lparr>required := True, unique := True\<rparr>)"
  "unique_paths singleSectionSchema = [''sectionId'']"
  "\<not> timestamps singleSectionSchema"
  "distinct (map fst (paths singleSectionSchema))"
  by (simp_all add: singleSectionSchema_def plain_def unique_paths_def)

lemma section_update_keys: "fst ` set (section_update b) \<subseteq> {''title'', ''description''}"
  using object_keys [of "[(''title'', map_of b ''title''), (''description'', map_of b ''description'')]"]
  by (simp add: section_update_def)

lemma section_update_no_key: "map_of (section_update b) ''sectionId'' = None"
proof -
  have "''sectionId'' \<notin> {''title'', ''description''}" by simp
  with section_update_keys have "''sectionId'' \<notin> fst ` set (section_update b)"
    by (rule not_in_subset)
  then show ?thesis by (simp add: map_of_eq_None_iff)
qed

lemma section_update_lookup:
  "map_of (section_update b) ''title'' = map_of b ''title''"
  "map_of (section_update b) ''description'' = map_of b ''description''"
  by (cases "map_of b ''title''"; cases "map_of b ''description''"; simp add: section_update_def)+

lemma sections_put_unfold:
  "sections_put t db k req =
     (case cast_fields (paths singleSectionSchema) (section_update (body req)) of
        Inl err \<Rightarrow> (message 400 (err_message err), db)
      | Inr sets \<Rightarrow>
          (case fault (db (modelName SingleSection)) of
             Some m \<Rightarrow> (message 400 (err_message (Unreachable m)), db)
           | None \<Rightarrow>
               (case split_first (has_key k) (docs (db (modelName SingleSection))) of
                  Some (pre, d, post) \<Rightarrow>
                    (Response 200 (Obj (set_fields sets d)),
                     db(modelName SingleSection :=
                          (db (modelName SingleSection))\<lparr>docs := pre @ set_fields sets d # post\<rparr>))
                | None \<Rightarrow>
                    (Response 200
                       (Obj (upserted singleSectionSchema (clock t)
                               (docs (db (modelName SingleSection))) sets
                               [(''sectionId'', VStr k)] False)),
                     db(modelName SingleSection :=
                          (db (modelName SingleSection))
                            \<lparr>docs := docs (db (modelName SingleSection))
                               @ [upserted singleSectionSchema (clock t)
                                    (docs (db (modelName SingleSection))) sets
                                    [(''sectionId'', VStr k)] False]\<rparr>)))))"
proof -
  have "''sectionId'' \<noteq> ''_id''" by simp
  note ku = keyed_upsert [OF section_schema(1-6) this section_update_no_key [of "body req"],
      where now = "clock t" and c = "db (modelName SingleSection)" and kv = k and dfl = False]
  have "sections_put t db k req =
     (case findOneAndUpdate singleSectionSchema (clock t) (db (modelName SingleSection))
                [(''sectionId'', Some (VStr k))] (section_update (body req)) False of
           Inl err \<Rightarrow> (message 400 (err_message err), db)
         | Inr (updatedSection, c') \<Rightarrow>
             (Response 200 (json_opt updatedSection), db(modelName SingleSection := c')))"
    unfolding sections_put_def section_update_def Let_def by (rule refl)
  then show ?thesis
    unfolding ku has_key_keyed
    by (simp add: json_opt_def split: sum.splits option.splits prod.splits)
qed

lemma section_sets:
  assumes "cast_fields (paths singleSectionSchema) (section_update b) = Inr sets"
  shows "fst ` set sets \<subseteq> {''title'', ''description''}"
    and "distinct (map fst sets)"
    and "map_of b ''title'' = Some v \<Longrightarrow>
           \<exists>c. cast_val (plain TString) v = Some c \<and> (''title'', c) \<in> set sets"
    and "map_of b ''description'' = Some v \<Longrightarrow>
           \<exists>c. cast_val (plain TString) v = Some c \<and> (''description'', c) \<in> set sets"
proof -
  have "fst ` set sets \<subseteq> dom (map_of (section_update b))"
    using cast_fields_keys [OF assms] by simp
  also have "\<dots> = fst ` set (section_update b)"
    by (rule dom_map_of_conv_image_fst)
  also have "\<dots> \<subseteq> {''title'', ''description''}"
    by (rule section_update_keys)
  finally show "fst ` set sets \<subseteq> {''title'', ''description''}" .
  show "distinct (map fst sets)"
    by (rule cast_fields_distinct [OF section_schema(7) assms])
  have t: "(''title'', plain TString) \<in> set (paths singleSectionSchema)"
    and d: "(''description'', plain TString) \<in> set (paths singleSectionSchema)"
    by (simp_all add: singleSectionSchema_def)
  show "map_of b ''title'' = Some v \<Longrightarrow>
           \<exists>c. cast_val (plain TString) v = Some c \<and> (''title'', c) \<in> set sets"
    using cast_fields_complete [OF assms t, of v] by (simp add: section_update_lookup)
  show "map_of b ''description'' = Some v \<Longrightarrow>
           \<exists>c. cast_val (plain TString) v = Some c \<and> (''description'', c) \<in> set sets"
    using cast_fields_complete [OF assms d, of v] by (simp add: section_update_lookup)
qed

text \<open>What a section record is after a write that set the fields \<open>sets\<close>.\<close>

lemma section_written:
  assumes sets: "cast_fields (paths singleSectionSchema) (section_update b) = Inr sets"
    and d': "d' = set_fields sets d \<and> has_key k d
             \<or> d' = upserted singleSectionSchema now ds sets [(''sectionId'', VStr k)] False"
  shows "has_key k d'"
    and "map_of b ''title'' = Some v \<Longrightarrow> map_of d' ''title'' = cast_val (plain TString) v"
    and "map_of b ''description'' = Some v \<Longrightarrow>
           map_of d' ''description'' = cast_val (plain TString) v"
proof -
  note ss = section_sets [OF sets]
  have "''sectionId'' \<notin> {''title'', ''description''}" by simp
  with ss(1) have nk: "''sectionId'' \<notin> fst ` set sets" by (rule not_in_subset)
  have n1: "''sectionId'' \<noteq> ''_id''" and n2: "''title'' \<noteq> ''_id''"
    and n3: "''description'' \<noteq> ''_id''" by simp_all
  from d' show "has_key k d'"
  proof
    assume "d' = set_fields sets d \<and> has_key k d"
    then show ?thesis using nk by (simp add: has_key_def map_of_set_fields_other)
  next
    assume "d' = upserted singleSectionSchema now ds sets [(''sectionId'', VStr k)] False"
    then show ?thesis using upserted_key [OF nk n1] by (simp add: has_key_def)
  qed
  have wr: "map_of d' key = Some c" if "(key, c) \<in> set sets" and "key \<noteq> ''_id''" for key c
    using d' that map_of_set_fields_in [OF ss(2) that(1)] upserted_set [OF ss(2) that(1) that(2)]
    by auto
  show "map_of b ''title'' = Some v \<Longrightarrow> map_of d' ''title'' = cast_val (plain TString) v"
    using ss(3) [of v] wr [OF _ n2] by auto
  show "map_of b ''description'' = Some v \<Longrightarrow>
           map_of d' ''description'' = cast_val (plain TString) v"
    using ss(4) [of v] wr [OF _ n3] by auto
qed

lemma section_inserted_keys:
  assumes "cast_fields (paths singleSectionSchema) (section_update b) = Inr sets"
  shows "fst ` set (upserted singleSectionSchema now ds sets [(''sectionId'', VStr k)] False)
           \<subseteq> {''_id'', ''sectionId'', ''title'', ''description'', ''__v''}"
proof -
  have "fst ` set (set_fields sets [(''sectionId'', VStr k)])
          \<subseteq> {''sectionId'', ''title'', ''description''}"
    using section_sets(1) [OF assms] by (auto simp: set_fields_keys)
  then show ?thesis
    using section_schema(6) by (auto simp: upserted_def Let_def stamps_def)
qed

lemma section_kept:
  assumes "cast_fields (paths singleSectionSchema) (section_update b) = Inr sets"
    and "key \<noteq> ''title''" and "key \<noteq> ''description''"
  shows "map_of (set_fields sets d) key = map_of d key"
proof -
  have "key \<notin> {''title'', ''description''}" using assms(2,3) by simp
  with section_sets(1) [OF assms(1)] have "key \<notin> fst ` set sets" by (rule not_in_subset)
  then show ?thesis by (rule map_of_set_fields_other)
qed

lemma sections_put_body:
  assumes "map_of (body req) ''title'' = map_of (body req') ''title''"
    and "map_of (body req) ''description'' = map_of (body req') ''description''"
  shows "sections_put t db k req = sections_put t db k req'"
  using assms by (simp add: sections_put_def)

lemma sections_put_rejected:
  "status (fst (sections_put t db k req)) \<noteq> 200 \<Longrightarrow> snd (sections_put t db k req) = db"
  unfolding sections_put_unfold
  by (auto split: sum.splits option.splits prod.splits)

lemma sections_put_elsewhere:
  "n \<noteq> modelName SingleSection \<Longrightarrow> snd (sections_put t db k req) n = db n"
  unfolding sections_put_unfold
  by (auto split: sum.splits option.splits prod.splits)

lemma sections_put_accepted:
  assumes "status (fst (sections_put t db k req)) = 200"
  shows "\<exists>d'. fst (sections_put t db k req) = Response 200 (Obj d')
     \<and> has_key k d'
     \<and> (\<forall>v. map_of (body req) ''title'' = Some v
            \<longrightarrow> map_of d' ''title'' = cast_val (plain TString) v)
     \<and> (\<forall>v. map_of (body req) ''description'' = Some v
            \<longrightarrow> map_of d' ''description'' = cast_val (plain TString) v)
     \<and> ((\<exists>pre d post. docs (db (modelName SingleSection)) = pre @ d # post \<and> has_key k d
            \<and> (\<forall>x\<in>set pre. \<not> has_key k x)
            \<and> docs (snd (sections_put t db k req) (modelName SingleSection)) = pre @ d' # post
            \<and> (\<forall>key. key \<noteq> ''title'' \<and> key \<noteq> ''description''
                  \<longrightarrow> map_of d' key = map_of d key))
        \<or> ((\<forall>x\<in>set (docs (db (modelName SingleSection))). \<not> has_key k x)
            \<and> docs (snd (sections_put t db k req) (modelName SingleSection))
                = docs (db (modelName SingleSection)) @ [d']
            \<and> fst ` set d' \<subseteq> {''_id'', ''sectionId'', ''title'', ''description'', ''__v''}))"
proof -
  let ?c = "db (modelName SingleSection)"
  obtain sets where sets: "cast_fields (paths singleSectionSchema) (section_update (body req)) = Inr sets"
    using assms unfolding sections_put_unfold
    by (cases "cast_fields (paths singleSectionSchema) (section_update (body req))")
      (auto simp: message_def)
  have f: "fault ?c = None"
    using assms unfolding sections_put_unfold sets
    by (cases "fault ?c") (auto simp: message_def)
  show ?thesis
  proof (cases "split_first (has_key k) (docs ?c)")
    case None
    let ?d = "upserted singleSectionSchema (clock t) (docs ?c) sets [(''sectionId'', VStr k)] False"
    have r: "sections_put t db k req
        = (Response 200 (Obj ?d), db(modelName SingleSection := ?c\<lparr>docs := docs ?c @ [?d]\<rparr>))"
      unfolding sections_put_unfold sets using f None by simp
    have no: "\<forall>x\<in>set (docs ?c). \<not> has_key k x"
      using None by (simp add: split_first_None)
    note w = section_written [OF sets, of ?d _ k "clock t" "docs ?c"]
    have "has_key k ?d" by (rule w(1)) simp
    moreover have "\<forall>v. map_of (body req) ''title'' = Some v
            \<longrightarrow> map_of ?d ''title'' = cast_val (plain TString) v"
      using w(2) by simp
    moreover have "\<forall>v. map_of (body req) ''description'' = Some v
            \<longrightarrow> map_of ?d ''description'' = cast_val (plain TString) v"
      using w(3) by simp
    moreover have "fst ` set ?d \<subseteq> {''_id'', ''sectionId'', ''title'', ''description'', ''__v''}"
      by (rule section_inserted_keys [OF sets])
    ultimately show ?thesis
      unfolding r using no by (intro exI [of _ ?d]) simp
  next
    case (Some a)
    obtain pre d post where a: "a = (pre, d, post)" by (cases a)
    let ?d = "set_fields sets d"
    have dc: "docs ?c = pre @ d # post" "has_key k d" "\<forall>x\<in>set pre. \<not> has_key k x"
      using split_first_SomeD [of "has_key k" "docs ?c" pre d post] Some a by simp_all
    have r: "sections_put t db k req
        = (Response 200 (Obj ?d), db(modelName SingleSection := ?c\<lparr>docs := pre @ ?d # post\<rparr>))"
      unfolding sections_put_unfold sets using f Some a by simp
    note w = section_written [OF sets, of ?d d k]
    have "has_key k ?d" by (rule w(1)) (simp add: dc(2))
    moreover have "\<forall>v. map_of (body req) ''title'' = Some v
            \<longrightarrow> map_of ?d ''title'' = cast_val (plain TString) v"
      using w(2) dc(2) by simp
    moreover have "\<forall>v. map_of (body req) ''description'' = Some v
            \<longrightarrow> map_of ?d ''description'' = cast_val (plain TString) v"
      using w(3) dc(2) by simp
    moreover have "\<forall>key. key \<noteq> ''title'' \<and> key \<noteq> ''description''
                  \<longrightarrow> map_of ?d key = map_of d key"
      using section_kept [OF sets] by simp
    ultimately show ?thesis
      unfolding r using dc by (intro exI [of _ ?d]) auto
  qed
qed

text \<open>
  C9. For every section upsert \<open>PUT /sections/:sectionId\<close> and every body: two bodies
  that agree on \<open>title\<close> and \<open>description\<close> have the same effect and the same response,
  whatever else they carry (a \<open>sectionId\<close> included). When the request is answered 200,
  the response is the record of the path's key: it carries the path parameter as its
  \<open>sectionId\<close> and the body's title and description, cast to strings; it is either the
  first record that had the key, with every field other than title and description as
  before, or, when no record had the key, a new last record with no field beyond
  \<open>_id\<close>, \<open>sectionId\<close>, \<open>title\<close>, \<open>description\<close> and \<open>__v\<close>. Otherwise nothing is
  written, and no other collection is ever touched.
\<close>

theorem sections_put_persists:
  "(map_of (body req) ''title'' = map_of (body req') ''title''
      \<and> map_of (body req) ''description'' = map_of (body req') ''description''
      \<longrightarrow> sections_put t db k req = sections_put t db k req')
   \<and> (status (fst (sections_put t db k req)) = 200 \<longrightarrow>
        (\<exists>d'. fst (sections_put t db k req) = Response 200 (Obj d')
           \<and> has_key k d'
           \<and> (\<forall>v. map_of (body req) ''title'' = Some v
                  \<longrightarrow> map_of d' ''title'' = cast_val (plain TString) v)
           \<and> (\<forall>v. map_of (body req) ''description'' = Some v
                  \<longrightarrow> map_of d' ''description'' = cast_val (plain TString) v)
           \<and> ((\<exists>pre d post. docs (db (modelName SingleSection)) = pre @ d # post \<and> has_key k d
                  \<and> (\<forall>x\<in>set pre. \<not> has_key k x)
                  \<and> docs (snd (sections_put t db k req) (modelName SingleSection))
                      = pre @ d' # post
                  \<and> (\<forall>key. key \<noteq> ''title'' \<and> key \<noteq> ''description''
                        \<longrightarrow> map_of d' key = map_of d key))
              \<or> ((\<forall>x\<in>set (docs (db (modelName SingleSection))). \<not> has_key k x)
                  \<and> docs (snd (sections_put t db k req) (modelName SingleSection))
                      = docs (db (modelName SingleSection)) @ [d']
                  \<and> fst ` set d'
                      \<subseteq> {''_id'', ''sectionId'', ''title'', ''description'', ''__v''}))))
   \<and> (status (fst (sections_put t db k req)) \<noteq> 200 \<longrightarrow> snd (sections_put t db k req) = db)
   \<and> (\<forall>n. n \<noteq> modelName SingleSection \<longrightarrow> snd (sections_put t db k req) n = db n)"
proof (intro conjI impI allI)
  assume h: "map_of (body req) ''title'' = map_of (body req') ''title''
      \<and> map_of (body req) ''description'' = map_of (body req') ''description''"
  show "sections_put t db k req = sections_put t db k req'"
    by (rule sections_put_body [OF h [THEN conjunct1] h [THEN conjunct2]])
next
  assume "status (fst (sections_put t db k req)) = 200"
  then show "\<exists>d'. fst (sections_put t db k req) = Response 200 (Obj d')
           \<and> has_key k d'
           \<and> (\<forall>v. map_of (body req) ''title'' = Some v
                  \<longrightarrow> map_of d' ''title'' = cast_val (plain TString) v)
           \<and> (\<forall>v. map_of (body req) ''description'' = Some v
                  \<longrightarrow> map_of d' ''description'' = cast_val (plain TString) v)
           \<and> ((\<exists>pre d post. docs (db (modelName SingleSection)) = pre @ d # post \<and> has_key k d
                  \<and> (\<forall>x\<in>set pre. \<not> has_key k x)
                  \<and> docs (snd (sections_put t db k req) (modelName SingleSection))
                      = pre @ d' # post
                  \<and> (\<forall>key. key \<noteq> ''title'' \<and> key \<noteq> ''description''
                        \<longrightarrow> map_of d' key = map_of d key))
              \<or> ((\<forall>x\<in>set (docs (db (modelName SingleSection))). \<not> has_key k x)
                  \<and> docs (snd (sections_put t db k req) (modelName SingleSection))
                      = docs (db (modelName SingleSection)) @ [d']
                  \<and> fst ` set d'
                      \<subseteq> {''_id'', ''sectionId'', ''title'', ''description'', ''__v''}))"
    by (rule sections_put_accepted)
next
  assume "status (fst (sections_put t db k req)) \<noteq> 200"
  then show "snd (sections_put t db k req) = db" by (rule sections_put_rejected)
next
  fix n assume "n \<noteq> modelName SingleSection"
  then show "snd (sections_put t db k req) n = db n" by (rule sections_put_elsewhere)
qed

lemma ex_conj3: "\<exists>x. P x \<and> Q x \<and> R x \<and> S x \<Longrightarrow> \<exists>x. P x \<and> Q x \<and> R x"
  by blast

theorem sections_put_persists_witness:
  "map_of (body (sample_request None [(''title'', VStr ''T''), (''description'', VStr ''D'')])) ''title''
     = map_of (body (sample_request None [(''title'', VStr ''T''), (''sectionId'', VStr ''other''),
          (''description'', VStr ''D''), (''extra'', VNum 1)])) ''title''
   \<and> sections_put sample_tick sample_db ''contact''
        (sample_request None [(''title'', VStr ''T''), (''description'', VStr ''D'')])
     = sections_put sample_tick sample_db ''contact''
        (sample_request None [(''title'', VStr ''T''), (''sectionId'', VStr ''other''),
          (''description'', VStr ''D''), (''extra'', VNum 1)])
   \<and> status (fst (sections_put sample_tick sample_db ''contact''
        (sample_request None [(''title'', VStr ''T''), (''sectionId'', VStr ''other''),
          (''description'', VStr ''D''), (''extra'', VNum 1)]))) = 200
   \<and> (\<exists>d'. fst (sections_put sample_tick sample_db ''contact''
              (sample_request None [(''title'', VStr ''T''), (''sectionId'', VStr ''other''),
                (''description'', VStr ''D''), (''extra'', VNum 1)])) = Response 200 (Obj d')
          \<and> has_key ''contact'' d' \<and> map_of d' ''title'' = Some (VStr ''T''))
   \<and> map (\<lambda>d. map_of d ''sectionId'')
        (docs (snd (sections_put sample_tick sample_db ''contact''
           (sample_request None [(''title'', VStr ''T''), (''sectionId'', VStr ''other''),
             (''description'', VStr ''D''), (''extra'', VNum 1)])) (modelName SingleSection)))
       = [Some (VStr ''resume''), Some (VStr ''contact'')]
   \<and> map (\<lambda>d. (map_of d ''sectionId'', map_of d ''extra''))
        (docs (snd (sections_put sample_tick sample_db ''news''
           (sample_request None [(''title'', VStr ''T''), (''sectionId'', VStr ''other''),
             (''description'', VStr ''D''), (''extra'', VNum 1)])) (modelName SingleSection)))
       = [(Some (VStr ''resume''), None), (Some (VStr ''contact''), None),
          (Some (VStr ''news''), None)]"
proof -
  let ?r = "sample_request None [(''title'', VStr ''T''), (''description'', VStr ''D'')]"
  let ?r' = "sample_request None [(''title'', VStr ''T''), (''sectionId'', VStr ''other''),
          (''description'', VStr ''D''), (''extra'', VNum 1)]"
  have h1: "map_of (body ?r) ''title'' = map_of (body ?r') ''title''"
    and h2: "map_of (body ?r) ''description'' = map_of (body ?r') ''description''"
    and ti: "map_of (body ?r') ''title'' = Some (VStr ''T'')"
    by (simp_all add: sample_request_def)
  note a1 = sections_put_persists [of ?r ?r' sample_tick sample_db "''contact''",
      THEN conjunct1, THEN mp, OF conjI [OF h1 h2]]
  have st: "status (fst (sections_put sample_tick sample_db ''contact'' ?r')) = 200"
    by code_simp
  note a2 = sections_put_persists [of ?r' ?r' sample_tick sample_db "''contact''",
      THEN conjunct2, THEN conjunct1, THEN mp, OF st]
  have a3: "\<exists>d'. fst (sections_put sample_tick sample_db ''contact'' ?r') = Response 200 (Obj d')
      \<and> has_key ''contact'' d'
      \<and> (\<forall>v. map_of (body ?r') ''title'' = Some v
                  \<longrightarrow> map_of d' ''title'' = cast_val (plain TString) v)"
    by (rule ex_conj3 [OF a2])
  have ct: "cast_val (plain TString) (VStr ''T'') = Some (VStr ''T'')"
    by (simp add: cast_val_def plain_def setters_def)
  have ex: "\<exists>d'. fst (sections_put sample_tick sample_db ''contact'' ?r')
        = Response 200 (Obj d') \<and> has_key ''contact'' d' \<and> map_of d' ''title'' = Some (VStr ''T'')"
  proof -
    from a3 obtain d' where d': "fst (sections_put sample_tick sample_db ''contact'' ?r')
          = Response 200 (Obj d')" "has_key ''contact'' d'"
        and t: "\<forall>v. map_of (body ?r') ''title'' = Some v
                  \<longrightarrow> map_of d' ''title'' = cast_val (plain TString) v"
      by (elim exE conjE)
    have "map_of d' ''title'' = Some (VStr ''T'')"
      using t [THEN spec, THEN mp, OF ti] unfolding ct .
    then show ?thesis
      by (intro exI [of _ d'] conjI) (rule d'(1), rule d'(2))
  qed
  have e1: "map (\<lambda>d. map_of d ''sectionId'')
        (docs (snd (sections_put sample_tick sample_db ''contact'' ?r') (modelName SingleSection)))
       = [Some (VStr ''resume''), Some (VStr ''contact'')]"
    by code_simp
  have e2: "map (\<lambda>d. (map_of d ''sectionId'', map_of d ''extra''))
        (docs (snd (sections_put sample_tick sample_db ''news'' ?r') (modelName SingleSection)))
       = [(Some (VStr ''resume''), None), (Some (VStr ''contact''), None),
          (Some (VStr ''news''), None)]"
    by code_simp
  show ?thesis
    by (intro conjI) (rule h1, rule a1, rule st, rule ex, rule e1, rule e2)
qed

section \<open>Creation and the published flag\<close>




















section \<open>The singleton upsert\<close>









end
